theory Spec2Isabelle
  imports Main "HOL-Library.Word" "HOL-Library.AList" "HOL-Library.Sublist"
    "HOL-Library.Monad_Syntax"
begin

unbundle bit_operations_syntax

section \<open>Data model\<close>

text \<open>
  A Go byte slice is a list of bytes or \<open>nil\<close>; the code tests \<open>msg.data != nil\<close>, and
  an empty slice that is not nil passes that test, so \<open>None\<close> (nil) and \<open>Some []\<close> are
  kept apart.
\<close>

type_synonym bytes = "8 word list option"

text \<open>
  Go errors built by \<open>errors.New\<close> and \<open>fmt.Errorf\<close> are their message text; \<open>%s\<close> is
  written out as concatenation.
\<close>

type_synonym error = string

text \<open>
  Modelled from the spec: the message type and the message record are declared in a file
  of the package that is not among the sources. Section 3 of the specification lists the
  seven message types and the four fields of a message.
\<close>

datatype SagaMessageType =
  StartSaga | EndSaga | AbortSaga | StartTask | EndTask | StartCompTask | EndCompTask

record sagaMessage =
  sagaId :: string
  msgType :: SagaMessageType
  taskId :: string
  data :: bytes

text \<open>
  Modelled from the spec: \<open>MakeStartSagaMessage\<close> is not among the sources. Section 4.1
  reads a StartSaga message as \<open>state.sagaId = msg.sagaId; state.job = msg.data\<close>, and
  section 3 says that the task id is unused for StartSaga: the message carries the saga
  id, the type StartSaga, the zero task id and the job as its data.
\<close>

definition MakeStartSagaMessage :: "string \<Rightarrow> bytes \<Rightarrow> sagaMessage" where
  "MakeStartSagaMessage sid j =
     \<lparr>sagaMessage.sagaId = sid, msgType = StartSaga, taskId = [], data = j\<rparr>"

text \<open>\<open>type flag byte\<close>, with the four constants \<open>1 << iota\<close>.\<close>

type_synonym flag = "8 word"

definition TaskStarted :: flag where
  "TaskStarted = push_bit (0::nat) 1"

definition TaskCompleted :: flag where
  "TaskCompleted = push_bit (1::nat) 1"

definition CompTaskStarted :: flag where
  "CompTaskStarted = push_bit (2::nat) 1"

definition CompTaskCompleted :: flag where
  "CompTaskCompleted = push_bit (3::nat) 1"

record taskData =
  taskStart :: bytes
  taskEnd :: bytes
  compTaskStart :: bytes
  compTaskEnd :: bytes

text \<open>
  A Go map is an association list: \<open>m[k]\<close> is \<open>map_of\<close> (with the zero value for a
  missing key where the code ignores the \<open>ok\<close> result), \<open>m[k] = v\<close> is \<open>AList.update\<close>,
  and \<open>range m\<close> walks the list. Go leaves the order of \<open>range\<close> open; the order of the
  list stands for the order of one run, and every theorem below holds for every order.
  A Go map holds each key once: \<open>distinct (map fst m)\<close>.
\<close>

record SagaState =
  sagaId :: string
  job :: bytes
  taskData :: "(string \<times> taskData) list"
  taskState :: "(string \<times> flag) list"
  sagaAborted :: bool
  sagaCompleted :: bool

section \<open>Saga state\<close>

definition initializeSagaState :: SagaState where
  "initializeSagaState =
     \<lparr>SagaState.sagaId = [], job = None, taskData = [], taskState = [],
      sagaAborted = False, sagaCompleted = False\<rparr>"

text \<open>\<open>flags, _ := state.taskState[taskId]\<close>: the zero flag for a missing key.\<close>

definition flagsOf :: "SagaState \<Rightarrow> string \<Rightarrow> flag" where
  "flagsOf state t = (case map_of (taskState state) t of None \<Rightarrow> 0 | Some f \<Rightarrow> f)"

definition GetTaskIds :: "SagaState \<Rightarrow> string list" where
  "GetTaskIds state = fold (\<lambda>(id, _) taskIds. taskIds @ [id]) (taskState state) []"

definition IsTaskStarted :: "SagaState \<Rightarrow> string \<Rightarrow> bool" where
  "IsTaskStarted state t = (flagsOf state t AND TaskStarted \<noteq> 0)"

definition IsTaskCompleted :: "SagaState \<Rightarrow> string \<Rightarrow> bool" where
  "IsTaskCompleted state t = (flagsOf state t AND TaskCompleted \<noteq> 0)"

definition IsCompTaskStarted :: "SagaState \<Rightarrow> string \<Rightarrow> bool" where
  "IsCompTaskStarted state t = (flagsOf state t AND CompTaskStarted \<noteq> 0)"

definition IsCompTaskCompleted :: "SagaState \<Rightarrow> string \<Rightarrow> bool" where
  "IsCompTaskCompleted state t = (flagsOf state t AND CompTaskCompleted \<noteq> 0)"

definition GetStartTaskData :: "SagaState \<Rightarrow> string \<Rightarrow> bytes" where
  "GetStartTaskData state t =
     (case map_of (taskData state) t of Some d \<Rightarrow> taskStart d | None \<Rightarrow> None)"

definition GetEndTaskData :: "SagaState \<Rightarrow> string \<Rightarrow> bytes" where
  "GetEndTaskData state t =
     (case map_of (taskData state) t of Some d \<Rightarrow> taskEnd d | None \<Rightarrow> None)"

definition GetStartCompTaskData :: "SagaState \<Rightarrow> string \<Rightarrow> bytes" where
  "GetStartCompTaskData state t =
     (case map_of (taskData state) t of Some d \<Rightarrow> compTaskStart d | None \<Rightarrow> None)"

definition GetEndCompTaskData :: "SagaState \<Rightarrow> string \<Rightarrow> bytes" where
  "GetEndCompTaskData state t =
     (case map_of (taskData state) t of Some d \<Rightarrow> compTaskEnd d | None \<Rightarrow> None)"

definition IsSagaAborted :: "SagaState \<Rightarrow> bool" where
  "IsSagaAborted state = sagaAborted state"

definition IsSagaCompleted :: "SagaState \<Rightarrow> bool" where
  "IsSagaCompleted state = sagaCompleted state"

text \<open>
  \<open>addTaskData\<close>: a missing entry is first created with four nil fields, then the field
  of the message type is overwritten in place.
\<close>

definition addTaskData :: "SagaState \<Rightarrow> string \<Rightarrow> SagaMessageType \<Rightarrow> bytes \<Rightarrow> SagaState" where
  "addTaskData state t mt d =
     (let state1 =
        (case map_of (taskData state) t of
           None \<Rightarrow>
             state\<lparr>taskData :=
               AList.update t
                 \<lparr>taskStart = None, taskEnd = None, compTaskStart = None, compTaskEnd = None\<rparr>
                 (taskData state)\<rparr>
         | Some _ \<Rightarrow> state)
      in case mt of
           StartTask \<Rightarrow>
             state1\<lparr>taskData := AList.map_entry t (\<lambda>td. td\<lparr>taskStart := d\<rparr>) (taskData state1)\<rparr>
         | EndTask \<Rightarrow>
             state1\<lparr>taskData := AList.map_entry t (\<lambda>td. td\<lparr>taskEnd := d\<rparr>) (taskData state1)\<rparr>
         | StartCompTask \<Rightarrow>
             state1\<lparr>taskData := AList.map_entry t (\<lambda>td. td\<lparr>compTaskStart := d\<rparr>) (taskData state1)\<rparr>
         | EndCompTask \<Rightarrow>
             state1\<lparr>taskData := AList.map_entry t (\<lambda>td. td\<lparr>compTaskEnd := d\<rparr>) (taskData state1)\<rparr>
         | _ \<Rightarrow> state1)"

text \<open>
  \<open>copySagaState\<close>: a struct literal with three fields set (the others zero), then both
  maps filled entry by entry from the old ones, then the job.
\<close>

definition copySagaState :: "SagaState \<Rightarrow> SagaState" where
  "copySagaState s =
     (let newS = \<lparr>SagaState.sagaId = SagaState.sagaId s, job = None, taskData = [], taskState = [],
                  sagaAborted = sagaAborted s, sagaCompleted = sagaCompleted s\<rparr>;
          newS = newS\<lparr>taskState :=
                   fold (\<lambda>(key, value) m. AList.update key value m) (taskState s) []\<rparr>;
          newS = newS\<lparr>taskData :=
                   fold (\<lambda>(key, value) m.
                          AList.update key
                            \<lparr>taskStart = taskStart value, taskEnd = taskEnd value,
                             compTaskStart = compTaskStart value,
                             compTaskEnd = compTaskEnd value\<rparr> m)
                        (taskData s) []\<rparr>
      in newS\<lparr>job := job s\<rparr>)"

definition validateSagaId :: "string \<Rightarrow> error option" where
  "validateSagaId sid =
     (if sid = [] then Some ''Invalid Saga Message: sagaId cannot be the empty string''
      else None)"

definition validateTaskId :: "string \<Rightarrow> error option" where
  "validateTaskId t =
     (if t = [] then Some ''Invalid Saga Message: taskId cannot be the empty string''
      else None)"

definition makeSagaState :: "string \<Rightarrow> bytes \<Rightarrow> error + SagaState" where
  "makeSagaState sid j =
     (let state = initializeSagaState
      in case validateSagaId sid of
           Some err \<Rightarrow> Inl err
         | None \<Rightarrow> Inr (state\<lparr>SagaState.sagaId := sid, job := j\<rparr>))"

text \<open>
  The loop of the EndSaga case over the keys of \<open>taskState\<close>: the first key that fails
  the test ends the loop with its error.
\<close>

fun endSagaLoop :: "SagaState \<Rightarrow> string list \<Rightarrow> error option" where
  "endSagaLoop state [] = None"
| "endSagaLoop state (t # rest) =
     (if sagaAborted state then
        (if \<not> (IsCompTaskStarted state t \<and> IsCompTaskCompleted state t) then
           Some (''InvalidSagaState: End Saga Message cannot be applied to an aborted Saga where Task ''
                 @ t @ '' has not completed its compensating Tasks'')
         else endSagaLoop state rest)
      else
        (if \<not> IsTaskCompleted state t then
           Some (''InvalidSagaState: End Saga Message cannot be applied to a Saga where Task ''
                 @ t @ '' has not completed'')
         else endSagaLoop state rest))"

definition updateSagaState :: "SagaState \<Rightarrow> sagaMessage \<Rightarrow> error + SagaState" where
  "updateSagaState s msg =
     (let state = copySagaState s in
      if sagaMessage.sagaId msg \<noteq> SagaState.sagaId state then
        Inl (''InvalidSagaMessage: sagaId '' @ SagaState.sagaId state
             @ '' & SagaMessage sagaId '' @ sagaMessage.sagaId msg @ '' do not match'')
      else
        case msgType msg of
          StartSaga \<Rightarrow>
            Inl ''InvalidSagaState: Cannot apply a StartSaga Message to an already existing Saga''
        | EndSaga \<Rightarrow>
            (case endSagaLoop state (map fst (taskState state)) of
               Some err \<Rightarrow> Inl err
             | None \<Rightarrow> Inr (state\<lparr>sagaCompleted := True\<rparr>))
        | AbortSaga \<Rightarrow>
            if IsSagaCompleted state then
              Inl ''InvalidSagaState: AbortSaga Message cannot be applied to a Completed Saga''
            else Inr (state\<lparr>sagaAborted := True\<rparr>)
        | StartTask \<Rightarrow>
            (case validateTaskId (taskId msg) of
               Some err \<Rightarrow> Inl err
             | None \<Rightarrow>
                 if IsSagaCompleted state then
                   Inl ''InvalidSagaState: Cannot StartTask after Saga has been completed''
                 else if IsSagaAborted state then
                   Inl ''InvalidSagaState: Cannot StartTask after Saga has been aborted''
                 else if IsTaskCompleted state (taskId msg) then
                   Inl ''InvalidSagaState: Cannot StartTask after it has been completed''
                 else
                   let state = (if data msg \<noteq> None
                                then addTaskData state (taskId msg) (msgType msg) (data msg)
                                else state)
                   in Inr (state\<lparr>taskState :=
                             AList.update (taskId msg) TaskStarted (taskState state)\<rparr>))
        | EndTask \<Rightarrow>
            (case validateTaskId (taskId msg) of
               Some err \<Rightarrow> Inl err
             | None \<Rightarrow>
                 if IsSagaCompleted state then
                   Inl ''InvalidSagaState: Cannot EndTask after Saga has been completed''
                 else if IsSagaAborted state then
                   Inl ''InvalidSagaState: Cannot EndTask after an Abort Saga Message''
                 else if \<not> IsTaskStarted state (taskId msg) then
                   Inl (''InvalidSagaState: Cannot have a EndTask '' @ taskId msg
                        @ '' Message Before a StartTask '' @ taskId msg @ '' Message'')
                 else
                   let state = state\<lparr>taskState :=
                                 AList.update (taskId msg)
                                   (flagsOf state (taskId msg) OR TaskCompleted)
                                   (taskState state)\<rparr>
                   in Inr (if data msg \<noteq> None
                           then addTaskData state (taskId msg) (msgType msg) (data msg)
                           else state))
        | StartCompTask \<Rightarrow>
            (case validateTaskId (taskId msg) of
               Some err \<Rightarrow> Inl err
             | None \<Rightarrow>
                 if IsSagaCompleted state then
                   Inl ''InvalidSagaState: Cannot StartCompTask after Saga has been completed''
                 else if \<not> IsSagaAborted state then
                   Inl (''InvalidSagaState: Cannot have a StartCompTask '' @ taskId msg
                        @ '' Message when Saga has not been Aborted'')
                 else if \<not> IsTaskStarted state (taskId msg) then
                   Inl (''InvalidSagaState: Cannot have a StartCompTask '' @ taskId msg
                        @ '' Message Before a StartTask '' @ taskId msg @ '' Message'')
                 else if IsCompTaskCompleted state (taskId msg) then
                   Inl (''InvalidSagaState: Cannot StartCompTask after it has been completed.  taskId: ''
                        @ taskId msg)
                 else
                   let state = state\<lparr>taskState :=
                                 AList.update (taskId msg)
                                   (flagsOf state (taskId msg) OR CompTaskStarted)
                                   (taskState state)\<rparr>
                   in Inr (if data msg \<noteq> None
                           then addTaskData state (taskId msg) (msgType msg) (data msg)
                           else state))
        | EndCompTask \<Rightarrow>
            (case validateTaskId (taskId msg) of
               Some err \<Rightarrow> Inl err
             | None \<Rightarrow>
                 if IsSagaCompleted state then
                   Inl ''InvalidSagaState: Cannot EndCompTask after Saga has been completed''
                 else if \<not> IsSagaAborted state then
                   Inl (''InvalidSagaState: Cannot have a EndCompTask '' @ taskId msg
                        @ '' Message when Saga has not been Aborted'')
                 else if \<not> IsTaskStarted state (taskId msg) then
                   Inl (''InvalidSagaState: Cannot have a StartCompTask '' @ taskId msg
                        @ '' Message Before a StartTask '' @ taskId msg @ '' Message'')
                 else if \<not> IsCompTaskStarted state (taskId msg) then
                   Inl (''InvalidSagaState: Cannot have a EndCompTask '' @ taskId msg
                        @ '' Message Before a StartCompTaks '' @ taskId msg @ '' Message'')
                 else
                   let state = (if data msg \<noteq> None
                                then addTaskData state (taskId msg) (msgType msg) (data msg)
                                else state)
                   in Inr (state\<lparr>taskState :=
                             AList.update (taskId msg)
                               (flagsOf state (taskId msg) OR CompTaskCompleted)
                               (taskState state)\<rparr>)))"

subsection \<open>States, steps and invariants\<close>

text \<open>A Go map holds each key once; both maps of a state are such lists.\<close>

definition wellFormed :: "SagaState \<Rightarrow> bool" where
  "wellFormed s = (distinct (map fst (taskState s)) \<and> distinct (map fst (taskData s)))"

text \<open>The three invariants of the task flags, for every task id.\<close>

definition taskFlagInvariant :: "SagaState \<Rightarrow> bool" where
  "taskFlagInvariant s =
     (\<forall>t. (IsTaskCompleted s t \<longrightarrow> IsTaskStarted s t)
        \<and> (IsCompTaskStarted s t \<longrightarrow> sagaAborted s \<and> IsTaskStarted s t)
        \<and> (IsCompTaskCompleted s t \<longrightarrow> IsCompTaskStarted s t))"

text \<open>
  What an accepted message of each type has found in the state and what it has done to
  the flags and the two booleans.
\<close>

definition stepEffect :: "SagaState \<Rightarrow> sagaMessage \<Rightarrow> SagaState \<Rightarrow> bool" where
  "stepEffect s msg s' =
     (case msgType msg of
        StartSaga \<Rightarrow> False
      | EndSaga \<Rightarrow>
          sagaAborted s' = sagaAborted s \<and> sagaCompleted s' \<and> flagsOf s' = flagsOf s
      | AbortSaga \<Rightarrow>
          sagaAborted s' \<and> sagaCompleted s' = sagaCompleted s \<and> flagsOf s' = flagsOf s
      | StartTask \<Rightarrow>
          \<not> sagaAborted s \<and> \<not> IsTaskCompleted s (taskId msg)
          \<and> sagaAborted s' = sagaAborted s \<and> sagaCompleted s' = sagaCompleted s
          \<and> flagsOf s' = (flagsOf s)(taskId msg := TaskStarted)
      | EndTask \<Rightarrow>
          IsTaskStarted s (taskId msg)
          \<and> sagaAborted s' = sagaAborted s \<and> sagaCompleted s' = sagaCompleted s
          \<and> flagsOf s' = (flagsOf s)(taskId msg := flagsOf s (taskId msg) OR TaskCompleted)
      | StartCompTask \<Rightarrow>
          sagaAborted s \<and> IsTaskStarted s (taskId msg)
          \<and> sagaAborted s' = sagaAborted s \<and> sagaCompleted s' = sagaCompleted s
          \<and> flagsOf s' = (flagsOf s)(taskId msg := flagsOf s (taskId msg) OR CompTaskStarted)
      | EndCompTask \<Rightarrow>
          sagaAborted s \<and> IsTaskStarted s (taskId msg) \<and> IsCompTaskStarted s (taskId msg)
          \<and> sagaAborted s' = sagaAborted s \<and> sagaCompleted s' = sagaCompleted s
          \<and> flagsOf s' = (flagsOf s)(taskId msg := flagsOf s (taskId msg) OR CompTaskCompleted))"

text \<open>
  The states the package can build: \<open>makeSagaState\<close> with a valid saga id, then any
  number of accepted updates.
\<close>

inductive reachable :: "SagaState \<Rightarrow> bool" where
  reachable_make: "makeSagaState sid j = Inr s \<Longrightarrow> reachable s"
| reachable_update: "reachable s \<Longrightarrow> updateSagaState s msg = Inr s' \<Longrightarrow> reachable s'"

text \<open>Folding a list of messages through \<open>updateSagaState\<close>, stopping at the first rejection.\<close>

fun applyMessages :: "SagaState \<Rightarrow> sagaMessage list \<Rightarrow> error + SagaState" where
  "applyMessages s [] = Inr s"
| "applyMessages s (msg # msgs) =
     (case updateSagaState s msg of
        Inl err \<Rightarrow> Inl err
      | Inr s' \<Rightarrow> applyMessages s' msgs)"

section \<open>Saga state in a store\<close>

text \<open>
  \<open>updateSagaState\<close> promises not to mutate the state it is given. Whether it keeps the
  promise is a question about pointers: a \<open>*SagaState\<close> points to a struct, the two map
  fields of the struct refer to map objects, and the values of \<open>taskData\<close> point to
  \<open>taskData\<close> structs that \<open>addTaskData\<close> writes in place. The store below holds
  these four kinds of object, each kind in a list; a reference is an index into the
  list of its kind, or nil (\<open>None\<close>); allocation appends to the list. Every function is
  written once more over the store, statement by statement; \<open>None\<close> as a result is a
  Go panic (a nil pointer dereferenced, a nil map written).
\<close>

type_synonym ref = "nat option"

record SagaStateStruct =
  sagaIdF :: string
  jobF :: bytes
  taskDataF :: ref
  taskStateF :: ref
  sagaAbortedF :: bool
  sagaCompletedF :: bool

record store =
  structs :: "SagaStateStruct list"
  flagMaps :: "(string \<times> flag) list list"
  dataMaps :: "(string \<times> ref) list list"
  dataCells :: "taskData list"

text \<open>Reading through a pointer, and writing through one.\<close>

definition deref :: "'a list \<Rightarrow> ref \<Rightarrow> 'a option" where
  "deref xs p = (case p of None \<Rightarrow> None
                 | Some a \<Rightarrow> if a < length xs then Some (xs ! a) else None)"

definition assign :: "'a list \<Rightarrow> ref \<Rightarrow> 'a \<Rightarrow> 'a list option" where
  "assign xs p v = (case p of None \<Rightarrow> None
                    | Some a \<Rightarrow> if a < length xs then Some (xs[a := v]) else None)"

text \<open>The entries of a map, for a lookup or a \<open>range\<close>: a nil map reads as empty.\<close>

definition entries :: "'a list list \<Rightarrow> ref \<Rightarrow> 'a list option" where
  "entries ms m = (case m of None \<Rightarrow> Some [] | Some a \<Rightarrow> deref ms m)"

text \<open>\<open>m[k] = v\<close> on the two kinds of map.\<close>

definition storeFlag :: "store \<Rightarrow> ref \<Rightarrow> string \<Rightarrow> flag \<Rightarrow> store option" where
  "storeFlag h m k v =
     do { es \<leftarrow> deref (flagMaps h) m;
          ms \<leftarrow> assign (flagMaps h) m (AList.update k v es);
          Some (h\<lparr>flagMaps := ms\<rparr>) }"

definition storeData :: "store \<Rightarrow> ref \<Rightarrow> string \<Rightarrow> ref \<Rightarrow> store option" where
  "storeData h m k v =
     do { es \<leftarrow> deref (dataMaps h) m;
          ms \<leftarrow> assign (dataMaps h) m (AList.update k v es);
          Some (h\<lparr>dataMaps := ms\<rparr>) }"

text \<open>\<open>&taskData{...}\<close>: a new struct behind a new pointer.\<close>

definition newTaskData :: "store \<Rightarrow> taskData \<Rightarrow> ref \<times> store" where
  "newTaskData h d = (Some (length (dataCells h)), h\<lparr>dataCells := dataCells h @ [d]\<rparr>)"

text \<open>An assignment to a field of a struct behind a pointer.\<close>

definition setStruct :: "store \<Rightarrow> ref \<Rightarrow> (SagaStateStruct \<Rightarrow> SagaStateStruct) \<Rightarrow> store option" where
  "setStruct h p f =
     do { st \<leftarrow> deref (structs h) p;
          ss \<leftarrow> assign (structs h) p (f st);
          Some (h\<lparr>structs := ss\<rparr>) }"

definition setCell :: "store \<Rightarrow> ref \<Rightarrow> (taskData \<Rightarrow> taskData) \<Rightarrow> store option" where
  "setCell h p f =
     do { d \<leftarrow> deref (dataCells h) p;
          cs \<leftarrow> assign (dataCells h) p (f d);
          Some (h\<lparr>dataCells := cs\<rparr>) }"

text \<open>The two loops of \<open>copySagaState\<close>, over the entries of the old maps.\<close>

fun copyTaskState :: "store \<Rightarrow> ref \<Rightarrow> (string \<times> flag) list \<Rightarrow> store option" where
  "copyTaskState h m [] = Some h"
| "copyTaskState h m ((key, value) # rest) =
     do { h \<leftarrow> storeFlag h m key value; copyTaskState h m rest }"

fun copyTaskData :: "store \<Rightarrow> ref \<Rightarrow> (string \<times> ref) list \<Rightarrow> store option" where
  "copyTaskData h m [] = Some h"
| "copyTaskData h m ((key, value) # rest) =
     do { v \<leftarrow> deref (dataCells h) value;
          (p, h) \<leftarrow> Some (newTaskData h
                    \<lparr>taskStart = taskStart v, taskEnd = taskEnd v,
                     compTaskStart = compTaskStart v, compTaskEnd = compTaskEnd v\<rparr>);
          h \<leftarrow> storeData h m key p;
          copyTaskData h m rest }"

definition copySagaState_st :: "store \<Rightarrow> ref \<Rightarrow> (ref \<times> store) option" where
  "copySagaState_st h s =
     do { old \<leftarrow> deref (structs h) s;
          let newS = Some (length (structs h));
          let h = h\<lparr>structs := structs h @
                    [\<lparr>sagaIdF = sagaIdF old, jobF = None, taskDataF = None, taskStateF = None,
                      sagaAbortedF = sagaAbortedF old, sagaCompletedF = sagaCompletedF old\<rparr>]\<rparr>;
          let m = Some (length (flagMaps h));
          let h = h\<lparr>flagMaps := flagMaps h @ [[]]\<rparr>;
          h \<leftarrow> setStruct h newS (\<lambda>st. st\<lparr>taskStateF := m\<rparr>);
          old \<leftarrow> deref (structs h) s;
          es \<leftarrow> entries (flagMaps h) (taskStateF old);
          new \<leftarrow> deref (structs h) newS;
          h \<leftarrow> copyTaskState h (taskStateF new) es;
          let m = Some (length (dataMaps h));
          let h = h\<lparr>dataMaps := dataMaps h @ [[]]\<rparr>;
          h \<leftarrow> setStruct h newS (\<lambda>st. st\<lparr>taskDataF := m\<rparr>);
          old \<leftarrow> deref (structs h) s;
          es \<leftarrow> entries (dataMaps h) (taskDataF old);
          new \<leftarrow> deref (structs h) newS;
          h \<leftarrow> copyTaskData h (taskDataF new) es;
          old \<leftarrow> deref (structs h) s;
          h \<leftarrow> setStruct h newS (\<lambda>st. st\<lparr>jobF := jobF old\<rparr>);
          Some (newS, h) }"

definition flagsOf_st :: "store \<Rightarrow> ref \<Rightarrow> string \<Rightarrow> flag option" where
  "flagsOf_st h state t =
     do { st \<leftarrow> deref (structs h) state;
          es \<leftarrow> entries (flagMaps h) (taskStateF st);
          Some (case map_of es t of None \<Rightarrow> 0 | Some f \<Rightarrow> f) }"

definition addTaskData_st :: "store \<Rightarrow> ref \<Rightarrow> string \<Rightarrow> SagaMessageType \<Rightarrow> bytes \<Rightarrow> store option" where
  "addTaskData_st h state t mt d =
     do { st \<leftarrow> deref (structs h) state;
          es \<leftarrow> entries (dataMaps h) (taskDataF st);
          h \<leftarrow> (case map_of es t of
                  None \<Rightarrow>
                    (case newTaskData h
                       \<lparr>taskStart = None, taskEnd = None, compTaskStart = None,
                        compTaskEnd = None\<rparr> of
                       (tData, h) \<Rightarrow>
                         do { st \<leftarrow> deref (structs h) state;
                              storeData h (taskDataF st) t tData })
                | Some _ \<Rightarrow> Some h);
          st \<leftarrow> deref (structs h) state;
          es \<leftarrow> entries (dataMaps h) (taskDataF st);
          let p = (case map_of es t of None \<Rightarrow> None | Some p \<Rightarrow> p);
          case mt of
            StartTask \<Rightarrow> setCell h p (\<lambda>td. td\<lparr>taskStart := d\<rparr>)
          | EndTask \<Rightarrow> setCell h p (\<lambda>td. td\<lparr>taskEnd := d\<rparr>)
          | StartCompTask \<Rightarrow> setCell h p (\<lambda>td. td\<lparr>compTaskStart := d\<rparr>)
          | EndCompTask \<Rightarrow> setCell h p (\<lambda>td. td\<lparr>compTaskEnd := d\<rparr>)
          | _ \<Rightarrow> Some h }"

definition IsSagaAborted_st :: "store \<Rightarrow> ref \<Rightarrow> bool option" where
  "IsSagaAborted_st h state = do { st \<leftarrow> deref (structs h) state; Some (sagaAbortedF st) }"

definition IsSagaCompleted_st :: "store \<Rightarrow> ref \<Rightarrow> bool option" where
  "IsSagaCompleted_st h state = do { st \<leftarrow> deref (structs h) state; Some (sagaCompletedF st) }"

text \<open>\<open>state.taskState[k] = v\<close>: the map is the one that the struct refers to now.\<close>

definition storeTaskState :: "store \<Rightarrow> ref \<Rightarrow> string \<Rightarrow> flag \<Rightarrow> store option" where
  "storeTaskState h state k v =
     do { st \<leftarrow> deref (structs h) state; storeFlag h (taskStateF st) k v }"

definition IsTaskStarted_st :: "store \<Rightarrow> ref \<Rightarrow> string \<Rightarrow> bool option" where
  "IsTaskStarted_st h state t =
     do { flags \<leftarrow> flagsOf_st h state t; Some (flags AND TaskStarted \<noteq> 0) }"

definition IsTaskCompleted_st :: "store \<Rightarrow> ref \<Rightarrow> string \<Rightarrow> bool option" where
  "IsTaskCompleted_st h state t =
     do { flags \<leftarrow> flagsOf_st h state t; Some (flags AND TaskCompleted \<noteq> 0) }"

definition IsCompTaskStarted_st :: "store \<Rightarrow> ref \<Rightarrow> string \<Rightarrow> bool option" where
  "IsCompTaskStarted_st h state t =
     do { flags \<leftarrow> flagsOf_st h state t; Some (flags AND CompTaskStarted \<noteq> 0) }"

definition IsCompTaskCompleted_st :: "store \<Rightarrow> ref \<Rightarrow> string \<Rightarrow> bool option" where
  "IsCompTaskCompleted_st h state t =
     do { flags \<leftarrow> flagsOf_st h state t; Some (flags AND CompTaskCompleted \<noteq> 0) }"

fun endSagaLoop_st :: "store \<Rightarrow> ref \<Rightarrow> string list \<Rightarrow> error option option" where
  "endSagaLoop_st h state [] = Some None"
| "endSagaLoop_st h state (t # rest) =
     do { st \<leftarrow> deref (structs h) state;
          if sagaAbortedF st then
            do { cs \<leftarrow> IsCompTaskStarted_st h state t;
                 cc \<leftarrow> IsCompTaskCompleted_st h state t;
                 if \<not> (cs \<and> cc) then
                   Some (Some (''InvalidSagaState: End Saga Message cannot be applied to an aborted Saga where Task ''
                               @ t @ '' has not completed its compensating Tasks''))
                 else endSagaLoop_st h state rest }
          else
            do { c \<leftarrow> IsTaskCompleted_st h state t;
                 if \<not> c then
                   Some (Some (''InvalidSagaState: End Saga Message cannot be applied to a Saga where Task ''
                               @ t @ '' has not completed''))
                 else endSagaLoop_st h state rest } }"

definition updateSagaState_st ::
  "store \<Rightarrow> ref \<Rightarrow> sagaMessage \<Rightarrow> ((error + ref) \<times> store) option" where
  "updateSagaState_st h s msg =
     do { (state, h) \<leftarrow> copySagaState_st h s;
          st \<leftarrow> deref (structs h) state;
          if sagaMessage.sagaId msg \<noteq> sagaIdF st then
            Some (Inl (''InvalidSagaMessage: sagaId '' @ sagaIdF st
                       @ '' & SagaMessage sagaId '' @ sagaMessage.sagaId msg @ '' do not match''), h)
          else
            case msgType msg of
              StartSaga \<Rightarrow>
                Some (Inl ''InvalidSagaState: Cannot apply a StartSaga Message to an already existing Saga'', h)
            | EndSaga \<Rightarrow>
                do { st \<leftarrow> deref (structs h) state;
                     es \<leftarrow> entries (flagMaps h) (taskStateF st);
                     r \<leftarrow> endSagaLoop_st h state (map fst es);
                     case r of
                       Some err \<Rightarrow> Some (Inl err, h)
                     | None \<Rightarrow>
                         do { h \<leftarrow> setStruct h state (\<lambda>st. st\<lparr>sagaCompletedF := True\<rparr>);
                              Some (Inr state, h) } }
            | AbortSaga \<Rightarrow>
                do { sc \<leftarrow> IsSagaCompleted_st h state;
                     if sc then
                       Some (Inl ''InvalidSagaState: AbortSaga Message cannot be applied to a Completed Saga'', h)
                     else
                       do { h \<leftarrow> setStruct h state (\<lambda>st. st\<lparr>sagaAbortedF := True\<rparr>);
                            Some (Inr state, h) } }
            | StartTask \<Rightarrow>
                (case validateTaskId (taskId msg) of
                   Some err \<Rightarrow> Some (Inl err, h)
                 | None \<Rightarrow>
                     do { sc \<leftarrow> IsSagaCompleted_st h state;
                          if sc then
                            Some (Inl ''InvalidSagaState: Cannot StartTask after Saga has been completed'', h)
                          else
                     do { sa \<leftarrow> IsSagaAborted_st h state;
                          if sa then
                            Some (Inl ''InvalidSagaState: Cannot StartTask after Saga has been aborted'', h)
                          else
                     do { c \<leftarrow> IsTaskCompleted_st h state (taskId msg);
                          if c then
                            Some (Inl ''InvalidSagaState: Cannot StartTask after it has been completed'', h)
                          else
                     do { h \<leftarrow> (if data msg \<noteq> None
                                then addTaskData_st h state (taskId msg) (msgType msg) (data msg)
                                else Some h);
                          h \<leftarrow> storeTaskState h state (taskId msg) TaskStarted;
                          Some (Inr state, h) } } } })
            | EndTask \<Rightarrow>
                (case validateTaskId (taskId msg) of
                   Some err \<Rightarrow> Some (Inl err, h)
                 | None \<Rightarrow>
                     do { sc \<leftarrow> IsSagaCompleted_st h state;
                          if sc then
                            Some (Inl ''InvalidSagaState: Cannot EndTask after Saga has been completed'', h)
                          else
                     do { sa \<leftarrow> IsSagaAborted_st h state;
                          if sa then
                            Some (Inl ''InvalidSagaState: Cannot EndTask after an Abort Saga Message'', h)
                          else
                     do { b \<leftarrow> IsTaskStarted_st h state (taskId msg);
                          if \<not> b then
                            Some (Inl (''InvalidSagaState: Cannot have a EndTask '' @ taskId msg
                                       @ '' Message Before a StartTask '' @ taskId msg @ '' Message''), h)
                          else
                     do { flags \<leftarrow> flagsOf_st h state (taskId msg);
                          h \<leftarrow> storeTaskState h state (taskId msg) (flags OR TaskCompleted);
                          h \<leftarrow> (if data msg \<noteq> None
                                then addTaskData_st h state (taskId msg) (msgType msg) (data msg)
                                else Some h);
                          Some (Inr state, h) } } } })
            | StartCompTask \<Rightarrow>
                (case validateTaskId (taskId msg) of
                   Some err \<Rightarrow> Some (Inl err, h)
                 | None \<Rightarrow>
                     do { sc \<leftarrow> IsSagaCompleted_st h state;
                          if sc then
                            Some (Inl ''InvalidSagaState: Cannot StartCompTask after Saga has been completed'', h)
                          else
                     do { sa \<leftarrow> IsSagaAborted_st h state;
                          if \<not> sa then
                            Some (Inl (''InvalidSagaState: Cannot have a StartCompTask '' @ taskId msg
                                       @ '' Message when Saga has not been Aborted''), h)
                          else
                     do { b \<leftarrow> IsTaskStarted_st h state (taskId msg);
                          if \<not> b then
                            Some (Inl (''InvalidSagaState: Cannot have a StartCompTask '' @ taskId msg
                                       @ '' Message Before a StartTask '' @ taskId msg @ '' Message''), h)
                          else
                     do { cc \<leftarrow> IsCompTaskCompleted_st h state (taskId msg);
                          if cc then
                            Some (Inl (''InvalidSagaState: Cannot StartCompTask after it has been completed.  taskId: ''
                                       @ taskId msg), h)
                          else
                     do { flags \<leftarrow> flagsOf_st h state (taskId msg);
                          h \<leftarrow> storeTaskState h state (taskId msg) (flags OR CompTaskStarted);
                          h \<leftarrow> (if data msg \<noteq> None
                                then addTaskData_st h state (taskId msg) (msgType msg) (data msg)
                                else Some h);
                          Some (Inr state, h) } } } } })
            | EndCompTask \<Rightarrow>
                (case validateTaskId (taskId msg) of
                   Some err \<Rightarrow> Some (Inl err, h)
                 | None \<Rightarrow>
                     do { sc \<leftarrow> IsSagaCompleted_st h state;
                          if sc then
                            Some (Inl ''InvalidSagaState: Cannot EndCompTask after Saga has been completed'', h)
                          else
                     do { sa \<leftarrow> IsSagaAborted_st h state;
                          if \<not> sa then
                            Some (Inl (''InvalidSagaState: Cannot have a EndCompTask '' @ taskId msg
                                       @ '' Message when Saga has not been Aborted''), h)
                          else
                     do { b \<leftarrow> IsTaskStarted_st h state (taskId msg);
                          if \<not> b then
                            Some (Inl (''InvalidSagaState: Cannot have a StartCompTask '' @ taskId msg
                                       @ '' Message Before a StartTask '' @ taskId msg @ '' Message''), h)
                          else
                     do { cs \<leftarrow> IsCompTaskStarted_st h state (taskId msg);
                          if \<not> cs then
                            Some (Inl (''InvalidSagaState: Cannot have a EndCompTask '' @ taskId msg
                                       @ '' Message Before a StartCompTaks '' @ taskId msg
                                       @ '' Message''), h)
                          else
                     do { h \<leftarrow> (if data msg \<noteq> None
                                then addTaskData_st h state (taskId msg) (msgType msg) (data msg)
                                else Some h);
                          flags \<leftarrow> flagsOf_st h state (taskId msg);
                          h \<leftarrow> storeTaskState h state (taskId msg) (flags OR CompTaskCompleted);
                          Some (Inr state, h) } } } } }) }"

text \<open>
  The value that a pointer stands for: the struct with its maps read out of the store.
  It is defined when no pointer on the way dangles or is nil where a struct is needed.
\<close>

fun absData :: "store \<Rightarrow> (string \<times> ref) list \<Rightarrow> (string \<times> taskData) list option" where
  "absData h [] = Some []"
| "absData h ((k, p) # rest) =
     do { v \<leftarrow> deref (dataCells h) p; vs \<leftarrow> absData h rest; Some ((k, v) # vs) }"

definition absState :: "store \<Rightarrow> ref \<Rightarrow> SagaState option" where
  "absState h p =
     do { st \<leftarrow> deref (structs h) p;
          ps \<leftarrow> entries (dataMaps h) (taskDataF st);
          td \<leftarrow> absData h ps;
          ts \<leftarrow> entries (flagMaps h) (taskStateF st);
          Some \<lparr>SagaState.sagaId = sagaIdF st, job = jobF st, taskData = td,
                taskState = ts,
                sagaAborted = sagaAbortedF st, sagaCompleted = sagaCompletedF st\<rparr> }"

text \<open>Every object of the first store is in the second, at its address, unchanged.\<close>

definition extends :: "store \<Rightarrow> store \<Rightarrow> bool" where
  "extends h h' =
     (prefix (structs h) (structs h') \<and> prefix (flagMaps h) (flagMaps h')
      \<and> prefix (dataMaps h) (dataMaps h') \<and> prefix (dataCells h) (dataCells h'))"

text \<open>
  The store with a fresh copy of a state value: one new struct, one new map of each
  kind, and one new \<open>taskData\<close> struct for each entry, in the order of the entries.
\<close>

fun pointers :: "nat \<Rightarrow> (string \<times> 'a) list \<Rightarrow> (string \<times> ref) list" where
  "pointers n [] = []"
| "pointers n ((k, v) # rest) = (k, Some n) # pointers (Suc n) rest"

definition install :: "store \<Rightarrow> SagaState \<Rightarrow> store" where
  "install h S =
     \<lparr>structs = structs h @
        [\<lparr>sagaIdF = SagaState.sagaId S, jobF = job S,
          taskDataF = Some (length (dataMaps h)), taskStateF = Some (length (flagMaps h)),
          sagaAbortedF = sagaAborted S, sagaCompletedF = sagaCompleted S\<rparr>],
      flagMaps = flagMaps h @ [taskState S],
      dataMaps = dataMaps h @ [pointers (length (dataCells h)) (taskData S)],
      dataCells = dataCells h @ map snd (taskData S)\<rparr>"

section \<open>In-memory saga log\<close>

text \<open>
  The log is the map from saga id to the messages of that saga. Every method holds the
  lock of the log for its whole body, so a method is one atomic step on the map; the
  lines printed to standard output are not part of the model.
\<close>

record inMemorySagaLog =
  sagas :: "(string \<times> sagaMessage list) list"

text \<open>The log that \<open>MakeInMemorySaga\<close> builds: an empty map.\<close>

definition inMemLog :: inMemorySagaLog where
  "inMemLog = \<lparr>sagas = []\<rparr>"

definition LogMessage :: "inMemorySagaLog \<Rightarrow> sagaMessage \<Rightarrow> error option \<times> inMemorySagaLog" where
  "LogMessage log msg =
     (let sid = sagaMessage.sagaId msg in
      case map_of (sagas log) sid of
        None \<Rightarrow> (Some (''Saga: '' @ sagaMessage.sagaId msg @ '' is not Started yet.''), log)
      | Some msgs \<Rightarrow> (None, log\<lparr>sagas := AList.update sid (msgs @ [msg]) (sagas log)\<rparr>))"

text \<open>The method \<open>StartSaga\<close> of the log; the plain name is the message type's.\<close>

definition StartSaga_log :: "inMemorySagaLog \<Rightarrow> string \<Rightarrow> bytes \<Rightarrow> error option \<times> inMemorySagaLog" where
  "StartSaga_log log sid j =
     (let startMsg = MakeStartSagaMessage sid j
      in (None, log\<lparr>sagas := AList.update sid [startMsg] (sagas log)\<rparr>))"

text \<open>A nil slice is the empty list.\<close>

definition GetMessages :: "inMemorySagaLog \<Rightarrow> string \<Rightarrow> sagaMessage list \<times> error option" where
  "GetMessages log sid =
     (case map_of (sagas log) sid of
        Some msgs \<Rightarrow> (msgs, None)
      | None \<Rightarrow> ([], None))"

definition GetActiveSagas :: "inMemorySagaLog \<Rightarrow> string list \<times> error option" where
  "GetActiveSagas log = (fold (\<lambda>(key, _) keys. keys @ [key]) (sagas log) [], None)"

text \<open>
  A history of calls on one log, from the empty log on. A call of \<open>LogMessage\<close> that
  fails leaves the log as it was.
\<close>

datatype logCall = CallStartSaga string bytes | CallLogMessage sagaMessage

fun logStep :: "inMemorySagaLog \<Rightarrow> logCall \<Rightarrow> inMemorySagaLog" where
  "logStep log (CallStartSaga sid j) = snd (StartSaga_log log sid j)"
| "logStep log (CallLogMessage msg) = snd (LogMessage log msg)"

definition runCalls :: "logCall list \<Rightarrow> inMemorySagaLog" where
  "runCalls calls = foldl logStep inMemLog calls"

fun startsSaga :: "string \<Rightarrow> logCall \<Rightarrow> bool" where
  "startsSaga sid (CallStartSaga sid' j) = (sid' = sid)"
| "startsSaga sid (CallLogMessage msg) = False"

fun logged :: "string \<Rightarrow> logCall \<Rightarrow> sagaMessage list" where
  "logged sid (CallStartSaga sid' j) = []"
| "logged sid (CallLogMessage msg) = (if sagaMessage.sagaId msg = sid then [msg] else [])"

text \<open>
  What the history says the log of a saga is: nothing when the saga was never started;
  otherwise the StartSaga message of its latest StartSaga call, then every message handed
  to \<open>LogMessage\<close> for the saga after that call, in the order of the calls.
\<close>

definition acceptedMessages :: "string \<Rightarrow> logCall list \<Rightarrow> sagaMessage list" where
  "acceptedMessages sid calls =
     (case dropWhile (\<lambda>c. \<not> startsSaga sid c) (rev calls) of
        [] \<Rightarrow> []
      | CallStartSaga sid' j # _ \<Rightarrow>
          MakeStartSagaMessage sid j
          # concat (map (logged sid) (rev (takeWhile (\<lambda>c. \<not> startsSaga sid c) (rev calls))))
      | CallLogMessage _ # _ \<Rightarrow> [])"

section \<open>Auxiliary facts\<close>

subsection \<open>Copying a state\<close>

lemma update_fresh: "k \<notin> fst ` set al \<Longrightarrow> AList.update k v al = al @ [(k, v)]"
  by (induction al) auto

lemma fold_update_distinct:
  "distinct (map fst xs) \<Longrightarrow> fst ` set acc \<inter> fst ` set xs = {} \<Longrightarrow>
   fold (\<lambda>(key, value) m. AList.update key (g value) m) xs acc = acc @ map (\<lambda>(k, v). (k, g v)) xs"
proof (induction xs arbitrary: acc)
  case Nil
  then show ?case by simp
next
  case (Cons p xs)
  obtain k v where p: "p = (k, v)" by (cases p)
  from Cons.prems have fresh: "k \<notin> fst ` set acc" by (auto simp: p)
  have "fst ` set (acc @ [(k, g v)]) \<inter> fst ` set xs = {}"
    using Cons.prems by (auto simp: p)
  moreover have "distinct (map fst xs)" using Cons.prems by simp
  ultimately show ?case
    using Cons.IH [of "acc @ [(k, g v)]"] by (simp add: p update_fresh [OF fresh])
qed

lemma taskData_rebuild:
  "\<lparr>taskStart = taskStart d, taskEnd = taskEnd d, compTaskStart = compTaskStart d,
    compTaskEnd = compTaskEnd d\<rparr> = (d :: taskData)"
  by simp

lemma copySagaState_id: "wellFormed s \<Longrightarrow> copySagaState s = s"
  using fold_update_distinct [of "taskState s" "[]" "\<lambda>v. v"]
        fold_update_distinct [of "taskData s" "[]" "\<lambda>v. v"]
  by (simp add: copySagaState_def wellFormed_def Let_def taskData_rebuild)

lemma copySagaState_fields:
  "SagaState.sagaId (copySagaState s) = SagaState.sagaId s"
  "job (copySagaState s) = job s"
  "sagaAborted (copySagaState s) = sagaAborted s"
  "sagaCompleted (copySagaState s) = sagaCompleted s"
  by (simp_all add: copySagaState_def Let_def)

lemma addTaskData_fields:
  "SagaState.sagaId (addTaskData st t mt d) = SagaState.sagaId st"
  "job (addTaskData st t mt d) = job st"
  "sagaAborted (addTaskData st t mt d) = sagaAborted st"
  "sagaCompleted (addTaskData st t mt d) = sagaCompleted st"
  "taskState (addTaskData st t mt d) = taskState st"
  by (simp_all add: addTaskData_def Let_def split: option.splits SagaMessageType.splits)


subsection \<open>The transition function, case by case\<close>

lemma mismatch_rejected:
  "sagaMessage.sagaId msg \<noteq> SagaState.sagaId s \<Longrightarrow>
   updateSagaState s msg =
     Inl (''InvalidSagaMessage: sagaId '' @ SagaState.sagaId s
          @ '' & SagaMessage sagaId '' @ sagaMessage.sagaId msg @ '' do not match'')"
  by (simp add: updateSagaState_def Let_def copySagaState_fields)

lemma update_StartSaga:
  "msgType msg = StartSaga \<Longrightarrow>
   updateSagaState s msg =
     (if sagaMessage.sagaId msg \<noteq> SagaState.sagaId s then
        Inl (''InvalidSagaMessage: sagaId '' @ SagaState.sagaId s
          @ '' & SagaMessage sagaId '' @ sagaMessage.sagaId msg @ '' do not match'')
      else Inl ''InvalidSagaState: Cannot apply a StartSaga Message to an already existing Saga'')"
  by (simp add: updateSagaState_def Let_def copySagaState_fields)

lemma update_EndSaga:
  "msgType msg = EndSaga \<Longrightarrow> sagaMessage.sagaId msg = SagaState.sagaId s \<Longrightarrow>
   updateSagaState s msg =
     (case endSagaLoop (copySagaState s) (map fst (taskState (copySagaState s))) of
        Some err \<Rightarrow> Inl err
      | None \<Rightarrow> Inr ((copySagaState s)\<lparr>sagaCompleted := True\<rparr>))"
  by (simp add: updateSagaState_def Let_def copySagaState_fields)

lemma update_AbortSaga:
  "msgType msg = AbortSaga \<Longrightarrow> sagaMessage.sagaId msg = SagaState.sagaId s \<Longrightarrow>
   updateSagaState s msg =
     (if sagaCompleted s then
        Inl ''InvalidSagaState: AbortSaga Message cannot be applied to a Completed Saga''
      else Inr ((copySagaState s)\<lparr>sagaAborted := True\<rparr>))"
  by (simp add: updateSagaState_def Let_def copySagaState_fields IsSagaCompleted_def)

lemma update_StartTask:
  "msgType msg = StartTask \<Longrightarrow> sagaMessage.sagaId msg = SagaState.sagaId s \<Longrightarrow>
   taskId msg \<noteq> [] \<Longrightarrow>
   updateSagaState s msg =
     (if sagaCompleted s then
        Inl ''InvalidSagaState: Cannot StartTask after Saga has been completed''
      else if sagaAborted s then
        Inl ''InvalidSagaState: Cannot StartTask after Saga has been aborted''
      else if IsTaskCompleted (copySagaState s) (taskId msg) then
        Inl ''InvalidSagaState: Cannot StartTask after it has been completed''
      else
        let state = (if data msg \<noteq> None
                     then addTaskData (copySagaState s) (taskId msg) StartTask (data msg)
                     else copySagaState s)
        in Inr (state\<lparr>taskState := AList.update (taskId msg) TaskStarted (taskState state)\<rparr>))"
  by (simp add: updateSagaState_def Let_def copySagaState_fields IsSagaCompleted_def
        IsSagaAborted_def validateTaskId_def)

lemma update_EndTask:
  "msgType msg = EndTask \<Longrightarrow> sagaMessage.sagaId msg = SagaState.sagaId s \<Longrightarrow>
   taskId msg \<noteq> [] \<Longrightarrow>
   updateSagaState s msg =
     (if sagaCompleted s then
        Inl ''InvalidSagaState: Cannot EndTask after Saga has been completed''
      else if sagaAborted s then
        Inl ''InvalidSagaState: Cannot EndTask after an Abort Saga Message''
      else if \<not> IsTaskStarted (copySagaState s) (taskId msg) then
        Inl (''InvalidSagaState: Cannot have a EndTask '' @ taskId msg
             @ '' Message Before a StartTask '' @ taskId msg @ '' Message'')
      else
        let state = (copySagaState s)\<lparr>taskState :=
                      AList.update (taskId msg)
                        (flagsOf (copySagaState s) (taskId msg) OR TaskCompleted)
                        (taskState (copySagaState s))\<rparr>
        in Inr (if data msg \<noteq> None
                then addTaskData state (taskId msg) EndTask (data msg)
                else state))"
  by (simp add: updateSagaState_def Let_def copySagaState_fields IsSagaCompleted_def
        IsSagaAborted_def validateTaskId_def)

lemma update_StartCompTask:
  "msgType msg = StartCompTask \<Longrightarrow> sagaMessage.sagaId msg = SagaState.sagaId s \<Longrightarrow>
   taskId msg \<noteq> [] \<Longrightarrow>
   updateSagaState s msg =
     (if sagaCompleted s then
        Inl ''InvalidSagaState: Cannot StartCompTask after Saga has been completed''
      else if \<not> sagaAborted s then
        Inl (''InvalidSagaState: Cannot have a StartCompTask '' @ taskId msg
             @ '' Message when Saga has not been Aborted'')
      else if \<not> IsTaskStarted (copySagaState s) (taskId msg) then
        Inl (''InvalidSagaState: Cannot have a StartCompTask '' @ taskId msg
             @ '' Message Before a StartTask '' @ taskId msg @ '' Message'')
      else if IsCompTaskCompleted (copySagaState s) (taskId msg) then
        Inl (''InvalidSagaState: Cannot StartCompTask after it has been completed.  taskId: ''
             @ taskId msg)
      else
        let state = (copySagaState s)\<lparr>taskState :=
                      AList.update (taskId msg)
                        (flagsOf (copySagaState s) (taskId msg) OR CompTaskStarted)
                        (taskState (copySagaState s))\<rparr>
        in Inr (if data msg \<noteq> None
                then addTaskData state (taskId msg) StartCompTask (data msg)
                else state))"
  by (simp add: updateSagaState_def Let_def copySagaState_fields IsSagaCompleted_def
        IsSagaAborted_def validateTaskId_def)

lemma update_EndCompTask:
  "msgType msg = EndCompTask \<Longrightarrow> sagaMessage.sagaId msg = SagaState.sagaId s \<Longrightarrow>
   taskId msg \<noteq> [] \<Longrightarrow>
   updateSagaState s msg =
     (if sagaCompleted s then
        Inl ''InvalidSagaState: Cannot EndCompTask after Saga has been completed''
      else if \<not> sagaAborted s then
        Inl (''InvalidSagaState: Cannot have a EndCompTask '' @ taskId msg
             @ '' Message when Saga has not been Aborted'')
      else if \<not> IsTaskStarted (copySagaState s) (taskId msg) then
        Inl (''InvalidSagaState: Cannot have a StartCompTask '' @ taskId msg
             @ '' Message Before a StartTask '' @ taskId msg @ '' Message'')
      else if \<not> IsCompTaskStarted (copySagaState s) (taskId msg) then
        Inl (''InvalidSagaState: Cannot have a EndCompTask '' @ taskId msg
             @ '' Message Before a StartCompTaks '' @ taskId msg @ '' Message'')
      else
        let state = (if data msg \<noteq> None
                     then addTaskData (copySagaState s) (taskId msg) EndCompTask (data msg)
                     else copySagaState s)
        in Inr (state\<lparr>taskState :=
                  AList.update (taskId msg)
                    (flagsOf state (taskId msg) OR CompTaskCompleted)
                    (taskState state)\<rparr>))"
  by (simp add: updateSagaState_def Let_def copySagaState_fields IsSagaCompleted_def
        IsSagaAborted_def validateTaskId_def)

lemma update_empty_taskId:
  assumes "msgType msg \<in> {StartTask, EndTask, StartCompTask, EndCompTask}"
    and "sagaMessage.sagaId msg = SagaState.sagaId s" and "taskId msg = []"
  shows "updateSagaState s msg = Inl ''Invalid Saga Message: taskId cannot be the empty string''"
proof -
  from assms(1) consider "msgType msg = StartTask" | "msgType msg = EndTask"
    | "msgType msg = StartCompTask" | "msgType msg = EndCompTask"
    by auto
  then show ?thesis
    by cases
       (simp_all add: updateSagaState_def Let_def copySagaState_fields validateTaskId_def assms(2,3))
qed


subsection \<open>Flags\<close>

lemma flag_values:
  "TaskStarted = 1" "TaskCompleted = 2" "CompTaskStarted = 4" "CompTaskCompleted = 8"
  by (simp_all add: TaskStarted_def TaskCompleted_def CompTaskStarted_def CompTaskCompleted_def)

lemma or_and_nonzero: "((f OR c) AND d \<noteq> 0) = (f AND d \<noteq> 0 \<or> c AND d \<noteq> 0)" for f :: flag
  by (simp add: bit.conj_disj_distrib2 or_eq_0_iff)

lemma flag_tests:
  "TaskStarted AND TaskStarted \<noteq> 0" "TaskStarted AND TaskCompleted = 0"
  "TaskStarted AND CompTaskStarted = 0" "TaskStarted AND CompTaskCompleted = 0"
  "TaskCompleted AND TaskStarted = 0" "TaskCompleted AND TaskCompleted \<noteq> 0"
  "TaskCompleted AND CompTaskStarted = 0" "TaskCompleted AND CompTaskCompleted = 0"
  "CompTaskStarted AND TaskStarted = 0" "CompTaskStarted AND TaskCompleted = 0"
  "CompTaskStarted AND CompTaskStarted \<noteq> 0" "CompTaskStarted AND CompTaskCompleted = 0"
  "CompTaskCompleted AND TaskStarted = 0" "CompTaskCompleted AND TaskCompleted = 0"
  "CompTaskCompleted AND CompTaskStarted = 0" "CompTaskCompleted AND CompTaskCompleted \<noteq> 0"
  "TaskStarted \<noteq> 0" "TaskCompleted \<noteq> 0" "CompTaskStarted \<noteq> 0" "CompTaskCompleted \<noteq> 0"
  by (simp_all add: flag_values)

lemmas IsX_defs = IsTaskStarted_def IsTaskCompleted_def IsCompTaskStarted_def IsCompTaskCompleted_def

lemma flagsOf_update:
  "flagsOf (st\<lparr>taskState := AList.update k v (taskState st)\<rparr>) t = (if t = k then v else flagsOf st t)"
  by (simp add: flagsOf_def update_conv')

lemma flagsOf_addTaskData: "flagsOf (addTaskData st k mt d) t = flagsOf st t"
  by (simp add: flagsOf_def addTaskData_fields)

lemma flagsOf_bools:
  "flagsOf (st\<lparr>sagaCompleted := b\<rparr>) t = flagsOf st t"
  "flagsOf (st\<lparr>sagaAborted := b\<rparr>) t = flagsOf st t"
  by (simp_all add: flagsOf_def)

lemma flagsOf_update_fun:
  "flagsOf (st\<lparr>taskState := AList.update k v (taskState st)\<rparr>) = (flagsOf st)(k := v)"
  by (rule ext) (simp add: flagsOf_update)

lemma flagsOf_addTaskData_fun: "flagsOf (addTaskData st k mt d) = flagsOf st"
  by (rule ext) (simp add: flagsOf_addTaskData)

lemma flagsOf_bools_fun:
  "flagsOf (st\<lparr>sagaCompleted := b\<rparr>) = flagsOf st"
  "flagsOf (st\<lparr>sagaAborted := b\<rparr>) = flagsOf st"
  by (rule ext, simp add: flagsOf_bools)+

lemma IsX_update:
  "IsTaskStarted (st\<lparr>taskState := AList.update k v (taskState st)\<rparr>) t
     = (if t = k then v AND TaskStarted \<noteq> 0 else IsTaskStarted st t)"
  "IsTaskCompleted (st\<lparr>taskState := AList.update k v (taskState st)\<rparr>) t
     = (if t = k then v AND TaskCompleted \<noteq> 0 else IsTaskCompleted st t)"
  "IsCompTaskStarted (st\<lparr>taskState := AList.update k v (taskState st)\<rparr>) t
     = (if t = k then v AND CompTaskStarted \<noteq> 0 else IsCompTaskStarted st t)"
  "IsCompTaskCompleted (st\<lparr>taskState := AList.update k v (taskState st)\<rparr>) t
     = (if t = k then v AND CompTaskCompleted \<noteq> 0 else IsCompTaskCompleted st t)"
  by (simp_all add: IsTaskStarted_def IsTaskCompleted_def IsCompTaskStarted_def
        IsCompTaskCompleted_def flagsOf_update)

lemma IsX_addTaskData:
  "IsTaskStarted (addTaskData st k mt d) t = IsTaskStarted st t"
  "IsTaskCompleted (addTaskData st k mt d) t = IsTaskCompleted st t"
  "IsCompTaskStarted (addTaskData st k mt d) t = IsCompTaskStarted st t"
  "IsCompTaskCompleted (addTaskData st k mt d) t = IsCompTaskCompleted st t"
  by (simp_all add: IsTaskStarted_def IsTaskCompleted_def IsCompTaskStarted_def
        IsCompTaskCompleted_def flagsOf_addTaskData)

lemma IsX_bools:
  "IsTaskStarted (st\<lparr>sagaCompleted := b\<rparr>) t = IsTaskStarted st t"
  "IsTaskCompleted (st\<lparr>sagaCompleted := b\<rparr>) t = IsTaskCompleted st t"
  "IsCompTaskStarted (st\<lparr>sagaCompleted := b\<rparr>) t = IsCompTaskStarted st t"
  "IsCompTaskCompleted (st\<lparr>sagaCompleted := b\<rparr>) t = IsCompTaskCompleted st t"
  "IsTaskStarted (st\<lparr>sagaAborted := b\<rparr>) t = IsTaskStarted st t"
  "IsTaskCompleted (st\<lparr>sagaAborted := b\<rparr>) t = IsTaskCompleted st t"
  "IsCompTaskStarted (st\<lparr>sagaAborted := b\<rparr>) t = IsCompTaskStarted st t"
  "IsCompTaskCompleted (st\<lparr>sagaAborted := b\<rparr>) t = IsCompTaskCompleted st t"
  by (simp_all add: IsTaskStarted_def IsTaskCompleted_def IsCompTaskStarted_def
        IsCompTaskCompleted_def flagsOf_bools)

lemma getStart_addTaskData:
  "GetStartTaskData (addTaskData st t StartTask d) t = d"
  by (simp add: GetStartTaskData_def addTaskData_def Let_def map_of_map_entry update_conv'
        split: option.splits)

lemma getStart_taskState_update:
  "GetStartTaskData (st\<lparr>taskState := x\<rparr>) t = GetStartTaskData st t"
  by (simp add: GetStartTaskData_def)

lemmas run_defs =
  updateSagaState_def copySagaState_def addTaskData_def validateTaskId_def Let_def
  IsSagaCompleted_def IsSagaAborted_def IsX_defs flagsOf_def flag_values


subsection \<open>The loop of EndSaga\<close>

lemma endSagaLoop_None:
  "endSagaLoop st ks = None \<longleftrightarrow>
     (\<forall>t \<in> set ks. if sagaAborted st then IsCompTaskStarted st t \<and> IsCompTaskCompleted st t
                     else IsTaskCompleted st t)"
  by (induction ks) auto

lemma has_not_completed:
  "sublist ''has not completed'' (p @ t @ '' has not completed'')"
  "sublist ''has not completed'' (p @ t @ '' has not completed its compensating Tasks'')"
proof -
  have "p @ t @ '' has not completed'' = (p @ t @ '' '') @ ''has not completed'' @ []" by simp
  then show "sublist ''has not completed'' (p @ t @ '' has not completed'')"
    unfolding sublist_def by blast
  have "p @ t @ '' has not completed its compensating Tasks''
        = (p @ t @ '' '') @ ''has not completed'' @ '' its compensating Tasks''" by simp
  then show "sublist ''has not completed'' (p @ t @ '' has not completed its compensating Tasks'')"
    unfolding sublist_def by blast
qed

lemma endSagaLoop_Some:
  "endSagaLoop st ks = Some err \<Longrightarrow> sublist ''has not completed'' err"
proof (induction ks)
  case Nil
  then show ?case by simp
next
  case (Cons t ks)
  then show ?case
    by (auto split: if_splits simp: has_not_completed simp del: append.simps)
qed


subsection \<open>Accepted messages\<close>

lemma wellFormed_update:
  "wellFormed st \<Longrightarrow> wellFormed (st\<lparr>taskState := AList.update k v (taskState st)\<rparr>)"
  by (simp add: wellFormed_def distinct_update)

lemma wellFormed_addTaskData:
  "wellFormed st \<Longrightarrow> wellFormed (addTaskData st k mt d)"
  by (simp add: wellFormed_def addTaskData_def Let_def distinct_update distinct_map_entry
        split: option.splits SagaMessageType.splits)

lemma wellFormed_bools:
  "wellFormed (st\<lparr>sagaCompleted := b\<rparr>) = wellFormed st"
  "wellFormed (st\<lparr>sagaAborted := b\<rparr>) = wellFormed st"
  by (simp_all add: wellFormed_def)

lemma accepted_effect:
  assumes upd: "updateSagaState s msg = Inr s'" and wf: "wellFormed s"
  shows "wellFormed s' \<and> stepEffect s msg s'"
proof -
  have c: "copySagaState s = s" by (rule copySagaState_id [OF wf])
  have sid: "sagaMessage.sagaId msg = SagaState.sagaId s"
    using upd mismatch_rejected [of msg s] by auto
  show ?thesis
  proof (cases "msgType msg")
    case StartSaga
    then show ?thesis using upd update_StartSaga [of msg s] by (simp split: if_splits)
  next
    case EndSaga
    then show ?thesis
      using upd update_EndSaga [OF EndSaga sid] wf unfolding c
      by (auto simp: stepEffect_def wellFormed_bools flagsOf_bools_fun split: option.splits)
  next
    case AbortSaga
    then show ?thesis
      using upd update_AbortSaga [OF AbortSaga sid] wf unfolding c
      by (auto simp: stepEffect_def wellFormed_bools flagsOf_bools_fun split: if_splits)
  next
    case StartTask
    have t: "taskId msg \<noteq> []" using upd update_empty_taskId [of msg s] StartTask sid by auto
    show ?thesis
      using upd update_StartTask [OF StartTask sid t] wf unfolding c
      by (auto simp: stepEffect_def StartTask Let_def wellFormed_update wellFormed_addTaskData
            flagsOf_update_fun flagsOf_addTaskData_fun flagsOf_addTaskData addTaskData_fields(3,4)
            split: if_splits)
  next
    case EndTask
    have t: "taskId msg \<noteq> []" using upd update_empty_taskId [of msg s] EndTask sid by auto
    show ?thesis
      using upd update_EndTask [OF EndTask sid t] wf unfolding c
      by (auto simp: stepEffect_def EndTask Let_def wellFormed_update wellFormed_addTaskData
            flagsOf_update_fun flagsOf_addTaskData_fun flagsOf_addTaskData addTaskData_fields(3,4)
            split: if_splits)
  next
    case StartCompTask
    have t: "taskId msg \<noteq> []" using upd update_empty_taskId [of msg s] StartCompTask sid by auto
    show ?thesis
      using upd update_StartCompTask [OF StartCompTask sid t] wf unfolding c
      by (auto simp: stepEffect_def StartCompTask Let_def wellFormed_update wellFormed_addTaskData
            flagsOf_update_fun flagsOf_addTaskData_fun flagsOf_addTaskData addTaskData_fields(3,4)
            split: if_splits)
  next
    case EndCompTask
    have t: "taskId msg \<noteq> []" using upd update_empty_taskId [of msg s] EndCompTask sid by auto
    show ?thesis
      using upd update_EndCompTask [OF EndCompTask sid t] wf unfolding c
      by (auto simp: stepEffect_def EndCompTask Let_def wellFormed_update wellFormed_addTaskData
            flagsOf_update_fun flagsOf_addTaskData_fun flagsOf_addTaskData addTaskData_fields(3,4)
            split: if_splits)
  qed
qed

lemma invariant_step:
  assumes "stepEffect s msg s'" and "taskFlagInvariant s"
  shows "taskFlagInvariant s'"
  using assms
  by (cases "msgType msg")
     (auto simp: stepEffect_def taskFlagInvariant_def IsX_defs or_and_nonzero flag_tests)

lemma makeSagaState_result:
  "makeSagaState sid j = Inr s \<Longrightarrow>
   sid \<noteq> [] \<and> s = \<lparr>SagaState.sagaId = sid, job = j, taskData = [], taskState = [],
                    sagaAborted = False, sagaCompleted = False\<rparr>"
  by (auto simp: makeSagaState_def validateSagaId_def initializeSagaState_def Let_def
        split: if_splits)

lemma reachable_invariant: "reachable s \<Longrightarrow> wellFormed s \<and> taskFlagInvariant s"
proof (induction rule: reachable.induct)
  case (reachable_make sid j s)
  then show ?case
    by (auto dest!: makeSagaState_result simp: wellFormed_def taskFlagInvariant_def IsX_defs flagsOf_def)
next
  case (reachable_update s msg s')
  then show ?case
    using accepted_effect [of s msg s'] invariant_step [of s msg s'] by blast
qed

lemma monotone_step:
  assumes "stepEffect s msg s'" and "taskFlagInvariant s"
  shows "(IsTaskStarted s t \<longrightarrow> IsTaskStarted s' t)
       \<and> (IsTaskCompleted s t \<longrightarrow> IsTaskCompleted s' t)
       \<and> (IsCompTaskStarted s t \<longrightarrow> IsCompTaskStarted s' t)
       \<and> (IsCompTaskCompleted s t \<longrightarrow> IsCompTaskCompleted s' t)
       \<and> (sagaAborted s \<longrightarrow> sagaAborted s')
       \<and> (sagaCompleted s \<longrightarrow> sagaCompleted s')"
  using assms
  by (cases "msgType msg")
     (auto simp: stepEffect_def taskFlagInvariant_def IsX_defs or_and_nonzero flag_tests)

lemma accepted_keeps_id:
  assumes upd: "updateSagaState s msg = Inr s'"
  shows "SagaState.sagaId s' = SagaState.sagaId s \<and> job s' = job s"
proof -
  have sid: "sagaMessage.sagaId msg = SagaState.sagaId s"
    using upd mismatch_rejected [of msg s] by auto
  show ?thesis
  proof (cases "msgType msg")
    case StartSaga
    then show ?thesis using upd update_StartSaga [of msg s] by (simp split: if_splits)
  next
    case EndSaga
    then show ?thesis
      using upd update_EndSaga [OF EndSaga sid]
      by (auto simp: copySagaState_fields split: option.splits)
  next
    case AbortSaga
    then show ?thesis
      using upd update_AbortSaga [OF AbortSaga sid]
      by (auto simp: copySagaState_fields split: if_splits)
  next
    case StartTask
    have t: "taskId msg \<noteq> []" using upd update_empty_taskId [of msg s] StartTask sid by auto
    show ?thesis
      using upd update_StartTask [OF StartTask sid t]
      by (auto simp: Let_def copySagaState_fields addTaskData_fields split: if_splits)
  next
    case EndTask
    have t: "taskId msg \<noteq> []" using upd update_empty_taskId [of msg s] EndTask sid by auto
    show ?thesis
      using upd update_EndTask [OF EndTask sid t]
      by (auto simp: Let_def copySagaState_fields addTaskData_fields split: if_splits)
  next
    case StartCompTask
    have t: "taskId msg \<noteq> []" using upd update_empty_taskId [of msg s] StartCompTask sid by auto
    show ?thesis
      using upd update_StartCompTask [OF StartCompTask sid t]
      by (auto simp: Let_def copySagaState_fields addTaskData_fields split: if_splits)
  next
    case EndCompTask
    have t: "taskId msg \<noteq> []" using upd update_empty_taskId [of msg s] EndCompTask sid by auto
    show ?thesis
      using upd update_EndCompTask [OF EndCompTask sid t]
      by (auto simp: Let_def copySagaState_fields addTaskData_fields split: if_splits)
  qed
qed

lemma applyMessages_keeps_id:
  "applyMessages s msgs = Inr s' \<Longrightarrow> SagaState.sagaId s' = SagaState.sagaId s \<and> job s' = job s"
proof (induction msgs arbitrary: s)
  case Nil
  then show ?case by simp
next
  case (Cons msg msgs)
  then show ?case
    by (auto split: sum.splits dest!: accepted_keeps_id)
qed

lemma reachable_applyMessages:
  "reachable s \<Longrightarrow> applyMessages s msgs = Inr s' \<Longrightarrow> reachable s'"
proof (induction msgs arbitrary: s)
  case Nil
  then show ?case by simp
next
  case (Cons msg msgs)
  then show ?case
    by (auto split: sum.splits intro: reachable_update)
qed

lemma example_replay:
  "applyMessages
     \<lparr>SagaState.sagaId = ''s1'', job = None, taskData = [], taskState = [],
      sagaAborted = False, sagaCompleted = False\<rparr>
     [\<lparr>sagaMessage.sagaId = ''s1'', msgType = StartTask, taskId = ''t1'', data = None\<rparr>,
      \<lparr>sagaMessage.sagaId = ''s1'', msgType = EndTask, taskId = ''t1'', data = None\<rparr>,
      \<lparr>sagaMessage.sagaId = ''s1'', msgType = AbortSaga, taskId = [], data = None\<rparr>,
      \<lparr>sagaMessage.sagaId = ''s1'', msgType = StartCompTask, taskId = ''t1'', data = None\<rparr>]
   = Inr \<lparr>SagaState.sagaId = ''s1'', job = None, taskData = [],
          taskState = [(''t1'', 7)], sagaAborted = True, sagaCompleted = False\<rparr>"
  by (simp add: run_defs)

lemma example_reachable:
  "reachable \<lparr>SagaState.sagaId = ''s1'', job = None, taskData = [],
          taskState = [(''t1'', 7)], sagaAborted = True, sagaCompleted = False\<rparr>"
proof -
  have "makeSagaState ''s1'' None
        = Inr \<lparr>SagaState.sagaId = ''s1'', job = None, taskData = [], taskState = [],
               sagaAborted = False, sagaCompleted = False\<rparr>"
    by (simp add: makeSagaState_def validateSagaId_def initializeSagaState_def)
  then have "reachable \<lparr>SagaState.sagaId = ''s1'', job = None, taskData = [], taskState = [],
               sagaAborted = False, sagaCompleted = False\<rparr>"
    by (rule reachable_make)
  then show ?thesis
    by (rule reachable_applyMessages [OF _ example_replay])
qed


subsection \<open>The log\<close>

lemma keys_fold: "fold (\<lambda>(key, _) keys. keys @ [key]) xs acc = acc @ map fst xs"
  by (induction xs arbitrary: acc) (auto split: prod.splits)

lemma GetActiveSagas_keys: "fst (GetActiveSagas log) = map fst (sagas log)"
  by (simp add: GetActiveSagas_def keys_fold)

lemma runCalls_snoc: "runCalls (calls @ [c]) = logStep (runCalls calls) c"
  by (simp add: runCalls_def)

lemma dropWhile_head: "dropWhile P xs = y # ys \<Longrightarrow> \<not> P y"
  using hd_dropWhile [of P xs] by simp

lemma acceptedMessages_snoc:
  "acceptedMessages sid (calls @ [c]) =
     (case c of
        CallStartSaga sid' j \<Rightarrow>
          if sid' = sid then [MakeStartSagaMessage sid j] else acceptedMessages sid calls
      | CallLogMessage msg \<Rightarrow>
          if sagaMessage.sagaId msg = sid \<and> (\<exists>c \<in> set calls. startsSaga sid c)
          then acceptedMessages sid calls @ [msg] else acceptedMessages sid calls)"
proof -
  have none: "dropWhile (\<lambda>c. \<not> startsSaga sid c) (rev calls) = []"
    if "\<not> (\<exists>c \<in> set calls. startsSaga sid c)"
    using that by simp
  have some: "dropWhile (\<lambda>c. \<not> startsSaga sid c) (rev calls) \<noteq> []"
    if "\<exists>c \<in> set calls. startsSaga sid c"
    using that by simp
  show ?thesis
  proof (cases "\<exists>c \<in> set calls. startsSaga sid c")
    case True
    then show ?thesis
      using some [OF True]
      by (cases c)
         (auto simp: acceptedMessages_def split: list.splits logCall.splits dest: dropWhile_head)
  next
    case False
    then show ?thesis
      by (cases c) (auto simp: acceptedMessages_def none [OF False])
  qed
qed

lemma stored_messages:
  "map_of (sagas (runCalls calls)) sid =
     (if \<exists>c \<in> set calls. startsSaga sid c then Some (acceptedMessages sid calls) else None)"
proof (induction calls rule: rev_induct)
  case Nil
  then show ?case by (simp add: runCalls_def inMemLog_def)
next
  case (snoc c calls)
  show ?case
  proof (cases c)
    case (CallStartSaga sid' j)
    then show ?thesis
      using snoc
      by (auto simp: runCalls_snoc acceptedMessages_snoc StartSaga_log_def Let_def update_conv')
  next
    case (CallLogMessage msg)
    then show ?thesis
      using snoc
      by (auto simp: runCalls_snoc acceptedMessages_snoc LogMessage_def Let_def update_conv'
            split: option.splits if_splits)
  qed
qed

subsection \<open>The store\<close>

lemma deref_append: "deref xs p = Some v \<Longrightarrow> deref (xs @ ys) p = Some v"
  by (auto simp: deref_def nth_append split: option.splits if_splits)

lemma deref_last: "deref (xs @ [v]) (Some (length xs)) = Some v"
  by (simp add: deref_def)

lemma assign_last: "assign (xs @ [v]) (Some (length xs)) w = Some (xs @ [w])"
  by (simp add: assign_def)

lemma entries_append: "entries ms m = Some es \<Longrightarrow> entries (ms @ ns) m = Some es"
  by (auto simp: entries_def deref_append split: option.splits)

lemma entries_last: "entries (ms @ [es]) (Some (length ms)) = Some es"
  by (simp add: entries_def deref_last)

lemma copyTaskState_last:
  "flagMaps h1 = fm @ [acc] \<Longrightarrow>
   copyTaskState h1 (Some (length fm)) xs =
     Some (h1\<lparr>flagMaps := fm @ [fold (\<lambda>(key, value) m. AList.update key value m) xs acc]\<rparr>)"
proof (induction xs arbitrary: h1 acc)
  case Nil
  then show ?case by simp
next
  case (Cons p xs)
  obtain k v where p: "p = (k, v)" by (cases p)
  have step: "storeFlag h1 (Some (length fm)) k v = Some (h1\<lparr>flagMaps := fm @ [AList.update k v acc]\<rparr>)"
    by (simp add: storeFlag_def Cons.prems deref_last assign_last)
  show ?case
    using Cons.IH [of "h1\<lparr>flagMaps := fm @ [AList.update k v acc]\<rparr>" "AList.update k v acc"]
    by (simp add: p step)
qed

lemma absData_append:
  "absData h ps = Some vs \<Longrightarrow> dataCells h' = dataCells h @ ns \<Longrightarrow> absData h' ps = Some vs"
proof (induction ps arbitrary: vs)
  case Nil
  then show ?case by simp
next
  case (Cons p ps)
  then show ?case
    by (cases p) (auto simp: bind_eq_Some_conv deref_append)
qed

lemma absData_keys: "absData h ps = Some vs \<Longrightarrow> map fst vs = map fst ps"
proof (induction ps arbitrary: vs)
  case Nil
  then show ?case by simp
next
  case (Cons p ps)
  then show ?case
    by (cases p) (auto simp: bind_eq_Some_conv)
qed

lemma pointers_keys: "map fst xs = map fst ys \<Longrightarrow> pointers n xs = pointers n ys"
proof (induction xs arbitrary: ys n)
  case Nil
  then show ?case by simp
next
  case (Cons x xs)
  then obtain y ys' where ys: "ys = y # ys'" by (cases ys) auto
  with Cons show ?case by (cases x; cases y) auto
qed

lemma pointers_fst: "map fst (pointers n xs) = map fst xs"
  by (induction xs arbitrary: n) auto

lemma copyTaskData_last:
  assumes "dataMaps h1 = dm @ [acc]" and "absData h1 ps = Some vs"
    and "distinct (map fst ps)" and "fst ` set acc \<inter> fst ` set ps = {}"
  shows "copyTaskData h1 (Some (length dm)) ps =
     Some (h1\<lparr>dataMaps := dm @ [acc @ pointers (length (dataCells h1)) ps],
              dataCells := dataCells h1 @ map snd vs\<rparr>)"
  using assms
proof (induction ps arbitrary: h1 acc vs)
  case Nil
  then show ?case by simp
next
  case (Cons p ps)
  obtain k r where p: "p = (k, r)" by (cases p)
  from Cons.prems(2) obtain v vs' where
    v: "deref (dataCells h1) r = Some v" and vs': "absData h1 ps = Some vs'" and
    vs: "vs = (k, v) # vs'"
    by (auto simp: p bind_eq_Some_conv)
  let ?h2 = "h1\<lparr>dataCells := dataCells h1 @ [v],
                dataMaps := dm @ [acc @ [(k, Some (length (dataCells h1)))]]\<rparr>"
  have fresh: "k \<notin> fst ` set acc" using Cons.prems(4) by (auto simp: p)
  have step: "storeData (h1\<lparr>dataCells := dataCells h1 @ [v]\<rparr>) (Some (length dm)) k
                (Some (length (dataCells h1))) = Some ?h2"
    by (simp add: storeData_def Cons.prems(1) deref_last assign_last update_fresh [OF fresh])
  have a: "dataMaps ?h2 = dm @ [acc @ [(k, Some (length (dataCells h1)))]]" by simp
  have b: "absData ?h2 ps = Some vs'"
    by (rule absData_append [OF vs']) simp
  have c: "distinct (map fst ps)" using Cons.prems(3) by simp
  have d: "fst ` set (acc @ [(k, Some (length (dataCells h1)))]) \<inter> fst ` set ps = {}"
    using Cons.prems(3,4) by (auto simp: p)
  show ?case
    using Cons.IH [OF a b c d]
    by (simp add: p v vs newTaskData_def taskData_rebuild step)
qed

lemma setStruct_last:
  "structs h1 = ss @ [st] \<Longrightarrow>
   setStruct h1 (Some (length ss)) f = Some (h1\<lparr>structs := ss @ [f st]\<rparr>)"
  by (simp add: setStruct_def deref_last assign_last)

lemma absState_parts:
  assumes "absState h s = Some S"
  shows "\<exists>old ps. deref (structs h) s = Some old
    \<and> entries (dataMaps h) (taskDataF old) = Some ps
    \<and> absData h ps = Some (taskData S)
    \<and> entries (flagMaps h) (taskStateF old) = Some (taskState S)
    \<and> sagaIdF old = SagaState.sagaId S \<and> jobF old = job S
    \<and> sagaAbortedF old = sagaAborted S \<and> sagaCompletedF old = sagaCompleted S"
proof -
  from assms obtain old where old: "deref (structs h) s = Some old"
    by (cases "deref (structs h) s") (simp_all add: absState_def)
  from assms old obtain ps where ps: "entries (dataMaps h) (taskDataF old) = Some ps"
    by (cases "entries (dataMaps h) (taskDataF old)") (simp_all add: absState_def)
  from assms old ps obtain td where td: "absData h ps = Some td"
    by (cases "absData h ps") (simp_all add: absState_def)
  from assms old ps td obtain ts where ts: "entries (flagMaps h) (taskStateF old) = Some ts"
    by (cases "entries (flagMaps h) (taskStateF old)") (simp_all add: absState_def)
  from assms have "S = \<lparr>SagaState.sagaId = sagaIdF old, job = jobF old, taskData = td,
                taskState = ts, sagaAborted = sagaAbortedF old,
                sagaCompleted = sagaCompletedF old\<rparr>"
    by (simp add: absState_def old ps td ts)
  with old ps td ts show ?thesis by simp
qed

lemma copySagaState_st_install:
  assumes abs: "absState h s = Some S" and wf: "wellFormed S"
  shows "copySagaState_st h s = Some (Some (length (structs h)), install h S)"
proof -
  from abs obtain old ps where old: "deref (structs h) s = Some old"
    and ps: "entries (dataMaps h) (taskDataF old) = Some ps"
    and td: "absData h ps = Some (taskData S)"
    and ts: "entries (flagMaps h) (taskStateF old) = Some (taskState S)"
    and f: "sagaIdF old = SagaState.sagaId S" "jobF old = job S"
      "sagaAbortedF old = sagaAborted S" "sagaCompletedF old = sagaCompleted S"
    using absState_parts [OF abs] by blast
  have old': "deref (structs h @ [st]) s = Some old" for st
    by (rule deref_append [OF old])
  let ?st0 = "\<lparr>sagaIdF = sagaIdF old, jobF = None, taskDataF = None, taskStateF = None,
               sagaAbortedF = sagaAbortedF old, sagaCompletedF = sagaCompletedF old\<rparr>"
  let ?m1 = "Some (length (flagMaps h))"
  let ?m2 = "Some (length (dataMaps h))"
  let ?h1 = "h\<lparr>structs := structs h @ [?st0], flagMaps := flagMaps h @ [[]]\<rparr>"
  let ?h2 = "?h1\<lparr>structs := structs h @ [?st0\<lparr>taskStateF := ?m1\<rparr>]\<rparr>"
  have s1: "setStruct ?h1 (Some (length (structs h))) (\<lambda>st. st\<lparr>taskStateF := ?m1\<rparr>) = Some ?h2"
    by (rule setStruct_last) simp
  have e1: "entries (flagMaps ?h2) (taskStateF old) = Some (taskState S)"
    using entries_append [OF ts] by simp
  have keys: "distinct (map fst (taskState S))" "distinct (map fst (taskData S))"
    using wf by (simp_all add: wellFormed_def)
  have fold1: "fold (\<lambda>(key, value) m. AList.update key value m) (taskState S) [] = taskState S"
    using fold_update_distinct [of "taskState S" "[]" "\<lambda>v. v"] keys by simp
  let ?h3 = "?h2\<lparr>flagMaps := flagMaps h @ [taskState S]\<rparr>"
  have c1: "copyTaskState ?h2 ?m1 (taskState S) = Some ?h3"
    using copyTaskState_last [of ?h2 "flagMaps h" "[]" "taskState S"] by (simp add: fold1)
  let ?h4 = "?h3\<lparr>dataMaps := dataMaps h @ [[]]\<rparr>"
  let ?h5 = "?h4\<lparr>structs := structs h @ [?st0\<lparr>taskStateF := ?m1, taskDataF := ?m2\<rparr>]\<rparr>"
  have s2: "setStruct ?h4 (Some (length (structs h))) (\<lambda>st. st\<lparr>taskDataF := ?m2\<rparr>) = Some ?h5"
    using setStruct_last [of ?h4 "structs h" "?st0\<lparr>taskStateF := ?m1\<rparr>"] by simp
  have e2: "entries (dataMaps ?h5) (taskDataF old) = Some ps"
    using entries_append [OF ps] by simp
  have td5: "absData ?h5 ps = Some (taskData S)"
    by (rule absData_append [OF td, where ns = "[]"]) simp
  have dps: "distinct (map fst ps)"
    using absData_keys [OF td] keys(2) by simp
  let ?h6 = "?h5\<lparr>dataMaps := dataMaps h @ [pointers (length (dataCells h)) ps],
                  dataCells := dataCells h @ map snd (taskData S)\<rparr>"
  have c2: "copyTaskData ?h5 ?m2 ps = Some ?h6"
    using copyTaskData_last [of ?h5 "dataMaps h" "[]" ps "taskData S"] td5 dps by simp
  let ?h7 = "?h6\<lparr>structs := structs h @
                [?st0\<lparr>taskStateF := ?m1, taskDataF := ?m2, jobF := jobF old\<rparr>]\<rparr>"
  have s3: "setStruct ?h6 (Some (length (structs h))) (\<lambda>st. st\<lparr>jobF := jobF old\<rparr>) = Some ?h7"
    using setStruct_last [of ?h6 "structs h" "?st0\<lparr>taskStateF := ?m1, taskDataF := ?m2\<rparr>"]
    by simp
  have ptr: "pointers (length (dataCells h)) ps = pointers (length (dataCells h)) (taskData S)"
    by (rule pointers_keys) (simp add: absData_keys [OF td])
  have fin: "?h7 = install h S"
    by (simp add: install_def f ptr)
  have "copySagaState_st h s = Some (Some (length (structs h)), ?h7)"
    unfolding copySagaState_st_def
    by (simp add: old old' deref_last Let_def s1 [simplified] e1 [simplified] c1 [simplified]
          s2 [simplified] e2 [simplified] c2 [simplified] s3 [simplified])
  then show ?thesis by (simp only: fin)
qed

lemma deref_install:
  "deref (structs (install h S)) (Some (length (structs h))) =
     Some \<lparr>sagaIdF = SagaState.sagaId S, jobF = job S,
           taskDataF = Some (length (dataMaps h)), taskStateF = Some (length (flagMaps h)),
           sagaAbortedF = sagaAborted S, sagaCompletedF = sagaCompleted S\<rparr>"
  by (simp add: install_def deref_last)

lemma extends_install: "extends h (install h S)"
  by (simp add: extends_def install_def)

lemma absData_pointers:
  "dataCells h' = pre @ map snd td @ post \<Longrightarrow>
   absData h' (pointers (length pre) td) = Some td"
proof (induction td arbitrary: pre)
  case Nil
  then show ?case by simp
next
  case (Cons p td)
  obtain k v where p: "p = (k, v)" by (cases p)
  have "dataCells h' = (pre @ [v]) @ map snd td @ post" using Cons.prems by (simp add: p)
  from Cons.IH [OF this] have "absData h' (pointers (Suc (length pre)) td) = Some td" by simp
  moreover have "deref (dataCells h') (Some (length pre)) = Some v"
    using Cons.prems by (simp add: deref_def p)
  ultimately show ?case by (simp add: p)
qed

lemma absState_install: "absState (install h S) (Some (length (structs h))) = Some S"
proof -
  have "absData (install h S) (pointers (length (dataCells h)) (taskData S)) = Some (taskData S)"
    by (rule absData_pointers [where post = "[]"]) (simp add: install_def)
  then show ?thesis
    by (simp add: absState_def deref_install)
       (simp add: install_def entries_def deref_last)
qed

lemma flagsOf_st_install:
  "flagsOf_st (install h S) (Some (length (structs h))) t = Some (flagsOf S t)"
  by (simp add: flagsOf_st_def deref_install flagsOf_def)
     (simp add: install_def entries_def deref_last)

lemma IsX_st_install:
  "IsTaskStarted_st (install h S) (Some (length (structs h))) t = Some (IsTaskStarted S t)"
  "IsTaskCompleted_st (install h S) (Some (length (structs h))) t = Some (IsTaskCompleted S t)"
  "IsCompTaskStarted_st (install h S) (Some (length (structs h))) t = Some (IsCompTaskStarted S t)"
  "IsCompTaskCompleted_st (install h S) (Some (length (structs h))) t = Some (IsCompTaskCompleted S t)"
  by (simp_all add: IsTaskStarted_st_def IsTaskCompleted_st_def IsCompTaskStarted_st_def
        IsCompTaskCompleted_st_def flagsOf_st_install IsX_defs)

lemma endSagaLoop_st_install:
  "endSagaLoop_st (install h S) (Some (length (structs h))) ks = Some (endSagaLoop S ks)"
  by (induction ks) (simp_all add: deref_install IsX_st_install del: append.simps)

lemma setStruct_install:
  "setStruct (install h S) (Some (length (structs h))) (\<lambda>st. st\<lparr>sagaCompletedF := b\<rparr>)
     = Some (install h (S\<lparr>sagaCompleted := b\<rparr>))"
  "setStruct (install h S) (Some (length (structs h))) (\<lambda>st. st\<lparr>sagaAbortedF := b\<rparr>)
     = Some (install h (S\<lparr>sagaAborted := b\<rparr>))"
  by (simp_all add: setStruct_def install_def deref_last assign_last)

lemma IsSaga_st_install:
  "IsSagaCompleted_st (install h S) (Some (length (structs h))) = Some (sagaCompleted S)"
  "IsSagaAborted_st (install h S) (Some (length (structs h))) = Some (sagaAborted S)"
  by (simp_all add: IsSagaCompleted_st_def IsSagaAborted_st_def deref_install)

lemma storeFlag_install:
  "storeFlag (install h S) (Some (length (flagMaps h))) k v
     = Some (install h (S\<lparr>taskState := AList.update k v (taskState S)\<rparr>))"
  by (simp add: storeFlag_def install_def deref_last assign_last)

lemma storeTaskState_install:
  "storeTaskState (install h S) (Some (length (structs h))) k v
     = Some (install h (S\<lparr>taskState := AList.update k v (taskState S)\<rparr>))"
  by (simp add: storeTaskState_def deref_install storeFlag_install)

lemma pointers_dom: "fst ` set (pointers n td) = fst ` set td"
  using pointers_fst [of n td] by (metis list.set_map)

lemma pointers_None: "map_of (pointers n td) t = None \<longleftrightarrow> map_of td t = None"
  by (simp add: map_of_eq_None_iff pointers_dom)

lemma pointers_snoc: "pointers n (td @ [(t, e)]) = pointers n td @ [(t, Some (n + length td))]"
  by (induction td arbitrary: n) auto

lemma map_entry_keys: "map fst (AList.map_entry k f xs) = map fst xs"
  by (induction xs) auto

lemma setCell_pointers:
  "dataCells h' = pre @ map snd td @ post \<Longrightarrow>
   map_of (pointers (length pre) td) t = Some p \<Longrightarrow>
   setCell h' p f = Some (h'\<lparr>dataCells := pre @ map snd (AList.map_entry t f td) @ post\<rparr>)"
proof (induction td arbitrary: pre)
  case Nil
  then show ?case by simp
next
  case (Cons e td)
  obtain k v where e: "e = (k, v)" by (cases e)
  show ?case
  proof (cases "k = t")
    case True
    with Cons.prems(2) have p: "p = Some (length pre)" by (simp add: e)
    show ?thesis
      using Cons.prems(1) True by (simp add: p e setCell_def deref_def assign_def)
  next
    case False
    have a: "dataCells h' = (pre @ [v]) @ map snd td @ post" using Cons.prems(1) by (simp add: e)
    have b: "map_of (pointers (length (pre @ [v])) td) t = Some p"
      using Cons.prems(2) False by (simp add: e)
    show ?thesis using Cons.IH [OF a b] False by (simp add: e)
  qed
qed

lemma storeData_install_fresh:
  assumes "map_of (taskData S) t = None"
  shows "storeData ((install h S)\<lparr>dataCells := dataCells (install h S) @ [e]\<rparr>)
           (Some (length (dataMaps h))) t (Some (length (dataCells (install h S))))
         = Some (install h (S\<lparr>taskData := AList.update t e (taskData S)\<rparr>))"
proof -
  have fresh: "t \<notin> fst ` set (taskData S)" using assms by (simp add: map_of_eq_None_iff)
  then have fresh': "t \<notin> fst ` set (pointers (length (dataCells h)) (taskData S))"
    using pointers_fst [of "length (dataCells h)" "taskData S"]
    by (metis list.set_map)
  show ?thesis
    by (simp add: storeData_def install_def deref_last assign_last update_fresh [OF fresh]
          update_fresh [OF fresh'] pointers_snoc)
qed

lemma setCell_install:
  assumes "map_of (pointers (length (dataCells h)) (taskData S)) t = Some p"
  shows "setCell (install h S) p f
         = Some (install h (S\<lparr>taskData := AList.map_entry t f (taskData S)\<rparr>))"
proof -
  have cells: "dataCells (install h S) = dataCells h @ map snd (taskData S) @ []"
    by (simp add: install_def)
  have ptr: "pointers (length (dataCells h)) (AList.map_entry t f (taskData S))
             = pointers (length (dataCells h)) (taskData S)"
    by (rule pointers_keys) (rule map_entry_keys)
  show ?thesis
    using setCell_pointers [OF cells assms, of f]
    by (simp add: install_def ptr)
qed

lemma entries_install_data:
  "entries (dataMaps (install h S)) (Some (length (dataMaps h)))
     = Some (pointers (length (dataCells h)) (taskData S))"
  by (simp add: install_def entries_def deref_last)

lemma addTaskData_st_install:
  assumes mt: "mt \<in> {StartTask, EndTask, StartCompTask, EndCompTask}"
  shows "addTaskData_st (install h S) (Some (length (structs h))) t mt d
         = Some (install h (addTaskData S t mt d))"
proof -
  let ?e = "\<lparr>taskStart = None, taskEnd = None, compTaskStart = None, compTaskEnd = None\<rparr>"
  let ?n = "length (dataCells h)"
  define S1 where "S1 = (case map_of (taskData S) t of
               None \<Rightarrow> S\<lparr>taskData := AList.update t ?e (taskData S)\<rparr> | Some _ \<Rightarrow> S)"
  have present: "map_of (taskData S1) t \<noteq> None"
    by (auto simp: S1_def update_conv' split: option.splits)
  then obtain p where p: "map_of (pointers ?n (taskData S1)) t = Some p"
    using pointers_None [of ?n "taskData S1" t] by auto
  have cell: "setCell (install h S1) p f
              = Some (install h (S1\<lparr>taskData := AList.map_entry t f (taskData S1)\<rparr>))" for f
    by (rule setCell_install [OF p])
  have pure: "addTaskData S t mt d =
      (case mt of
         StartTask \<Rightarrow> S1\<lparr>taskData := AList.map_entry t (\<lambda>td. td\<lparr>taskStart := d\<rparr>) (taskData S1)\<rparr>
       | EndTask \<Rightarrow> S1\<lparr>taskData := AList.map_entry t (\<lambda>td. td\<lparr>taskEnd := d\<rparr>) (taskData S1)\<rparr>
       | StartCompTask \<Rightarrow>
           S1\<lparr>taskData := AList.map_entry t (\<lambda>td. td\<lparr>compTaskStart := d\<rparr>) (taskData S1)\<rparr>
       | EndCompTask \<Rightarrow>
           S1\<lparr>taskData := AList.map_entry t (\<lambda>td. td\<lparr>compTaskEnd := d\<rparr>) (taskData S1)\<rparr>
       | _ \<Rightarrow> S1)"
    by (cases mt) (simp_all add: addTaskData_def Let_def S1_def)
  have st: "addTaskData_st (install h S) (Some (length (structs h))) t mt d =
      (case mt of
         StartTask \<Rightarrow> setCell (install h S1) p (\<lambda>td. td\<lparr>taskStart := d\<rparr>)
       | EndTask \<Rightarrow> setCell (install h S1) p (\<lambda>td. td\<lparr>taskEnd := d\<rparr>)
       | StartCompTask \<Rightarrow> setCell (install h S1) p (\<lambda>td. td\<lparr>compTaskStart := d\<rparr>)
       | EndCompTask \<Rightarrow> setCell (install h S1) p (\<lambda>td. td\<lparr>compTaskEnd := d\<rparr>)
       | _ \<Rightarrow> Some (install h S1))"
  proof (cases "map_of (taskData S) t")
    case None
    then have S1: "S1 = S\<lparr>taskData := AList.update t ?e (taskData S)\<rparr>" by (simp add: S1_def)
    have ptr: "map_of (pointers ?n (taskData S)) t = None"
      using None pointers_None [of ?n "taskData S" t] by simp
    show ?thesis
      unfolding addTaskData_st_def
      using p
      by (cases mt)
         (simp_all add: deref_install entries_install_data ptr newTaskData_def
            storeData_install_fresh [OF None] Let_def S1 [symmetric])
  next
    case (Some v)
    then have S1: "S1 = S" by (simp add: S1_def)
    from p obtain q where ptr: "map_of (pointers ?n (taskData S)) t = Some q"
      by (simp add: S1)
    show ?thesis
      unfolding addTaskData_st_def
      using p
      by (cases mt) (simp_all add: deref_install entries_install_data ptr Let_def S1)
  qed
  from mt consider "mt = StartTask" | "mt = EndTask" | "mt = StartCompTask" | "mt = EndCompTask"
    by auto
  then show ?thesis
    using st pure by cases (simp_all add: cell)
qed

lemma updateSagaState_st_refines:
  assumes abs: "absState h s = Some S" and wf: "wellFormed S"
  shows "updateSagaState_st h s msg =
     Some (case updateSagaState S msg of
             Inl err \<Rightarrow> (Inl err, install h S)
           | Inr S' \<Rightarrow> (Inr (Some (length (structs h))), install h S'))"
proof -
  note copy = copySagaState_st_install [OF abs wf]
  have c: "copySagaState S = S" by (rule copySagaState_id [OF wf])
  have mem: "msgType msg \<in> {StartTask, EndTask, StartCompTask, EndCompTask}"
    if "msgType msg = StartTask \<or> msgType msg = EndTask \<or> msgType msg = StartCompTask
        \<or> msgType msg = EndCompTask"
    using that by auto
  show ?thesis
  proof (cases "sagaMessage.sagaId msg = SagaState.sagaId S")
    case False
    then show ?thesis
      by (simp add: updateSagaState_st_def copy deref_install mismatch_rejected
            del: append.simps)
  next
    case sid: True
    show ?thesis
    proof (cases "msgType msg")
      case StartSaga
      then show ?thesis
        using update_StartSaga [of msg S]
        by (simp add: updateSagaState_st_def copy deref_install sid)
    next
      case EndSaga
      have es: "entries (flagMaps (install h S)) (Some (length (flagMaps h))) = Some (taskState S)"
        by (simp add: install_def entries_def deref_last)
      show ?thesis
        using update_EndSaga [OF EndSaga sid] unfolding c
        by (cases "endSagaLoop S (map fst (taskState S))")
           (simp_all add: updateSagaState_st_def copy deref_install sid EndSaga es
              endSagaLoop_st_install setStruct_install)
    next
      case AbortSaga
      show ?thesis
        using update_AbortSaga [OF AbortSaga sid] unfolding c
        by (simp add: updateSagaState_st_def copy deref_install sid AbortSaga setStruct_install
              IsSaga_st_install)
    next
      case StartTask
      show ?thesis
      proof (cases "taskId msg = []")
        case True
        then show ?thesis
          using update_empty_taskId [OF mem sid True] StartTask
          by (simp add: updateSagaState_st_def copy deref_install sid validateTaskId_def)
      next
        case False
        show ?thesis
          using update_StartTask [OF StartTask sid False] unfolding c
          by (simp add: updateSagaState_st_def copy deref_install sid StartTask
                validateTaskId_def False IsX_st_install addTaskData_st_install
                storeTaskState_install IsSaga_st_install Let_def addTaskData_fields)
      qed
    next
      case EndTask
      show ?thesis
      proof (cases "taskId msg = []")
        case True
        then show ?thesis
          using update_empty_taskId [OF mem sid True] EndTask
          by (simp add: updateSagaState_st_def copy deref_install sid validateTaskId_def)
      next
        case False
        show ?thesis
          using update_EndTask [OF EndTask sid False] unfolding c
          by (simp add: updateSagaState_st_def copy deref_install sid EndTask
                validateTaskId_def False IsX_st_install flagsOf_st_install addTaskData_st_install
                storeTaskState_install IsSaga_st_install Let_def del: append.simps)
      qed
    next
      case StartCompTask
      show ?thesis
      proof (cases "taskId msg = []")
        case True
        then show ?thesis
          using update_empty_taskId [OF mem sid True] StartCompTask
          by (simp add: updateSagaState_st_def copy deref_install sid validateTaskId_def)
      next
        case False
        show ?thesis
          using update_StartCompTask [OF StartCompTask sid False] unfolding c
          by (simp add: updateSagaState_st_def copy deref_install sid StartCompTask
                validateTaskId_def False IsX_st_install flagsOf_st_install addTaskData_st_install
                storeTaskState_install IsSaga_st_install Let_def del: append.simps)
      qed
    next
      case EndCompTask
      show ?thesis
      proof (cases "taskId msg = []")
        case True
        then show ?thesis
          using update_empty_taskId [OF mem sid True] EndCompTask
          by (simp add: updateSagaState_st_def copy deref_install sid validateTaskId_def)
      next
        case False
        show ?thesis
          using update_EndCompTask [OF EndCompTask sid False] unfolding c
          by (simp add: updateSagaState_st_def copy deref_install sid EndCompTask
                validateTaskId_def False IsX_st_install flagsOf_st_install addTaskData_st_install
                storeTaskState_install IsSaga_st_install Let_def flagsOf_addTaskData addTaskData_fields
                del: append.simps)
      qed
    qed
  qed
qed

lemma deref_prefix: "prefix xs ys \<Longrightarrow> deref xs p = Some v \<Longrightarrow> deref ys p = Some v"
  by (auto simp: prefix_def deref_append)

lemma entries_prefix: "prefix ms ms' \<Longrightarrow> entries ms m = Some es \<Longrightarrow> entries ms' m = Some es"
  by (auto simp: prefix_def entries_append)

lemma absState_extends:
  assumes "extends h h'" and "absState h s = Some S"
  shows "absState h' s = Some S"
proof -
  from assms(2) obtain old ps where old: "deref (structs h) s = Some old"
    and ps: "entries (dataMaps h) (taskDataF old) = Some ps"
    and td: "absData h ps = Some (taskData S)"
    and ts: "entries (flagMaps h) (taskStateF old) = Some (taskState S)"
    and f: "sagaIdF old = SagaState.sagaId S" "jobF old = job S"
      "sagaAbortedF old = sagaAborted S" "sagaCompletedF old = sagaCompleted S"
    using absState_parts by blast
  from assms(1) obtain ns where "dataCells h' = dataCells h @ ns"
    by (auto simp: extends_def prefix_def)
  then have td': "absData h' ps = Some (taskData S)"
    by (rule absData_append [OF td])
  have "deref (structs h') s = Some old"
    and "entries (dataMaps h') (taskDataF old) = Some ps"
    and "entries (flagMaps h') (taskStateF old) = Some (taskState S)"
    using assms(1) old ps ts by (auto simp: extends_def intro: deref_prefix entries_prefix)
  then show ?thesis
    by (simp add: absState_def td' f)
qed

section \<open>The claims\<close>

text \<open>
  Claim C1. For every state \<open>s\<close> (a Go state: each map holds a key once) and every
  EndSaga message with the saga id of \<open>s\<close>, \<open>updateSagaState\<close> accepts the message if
  and only if, when \<open>s\<close> is aborted, every task id of \<open>taskState\<close> has CompTaskStarted and
  CompTaskCompleted set, and, when it is not aborted, every task id has TaskCompleted
  set. On acceptance the result is \<open>s\<close> with \<open>sagaCompleted\<close> set and nothing else
  changed; on rejection the error text contains "has not completed".
\<close>

theorem EndSaga_accepted_iff:
  assumes "wellFormed s" and "msgType msg = EndSaga"
    and "sagaMessage.sagaId msg = SagaState.sagaId s"
  shows "((\<exists>s'. updateSagaState s msg = Inr s') \<longleftrightarrow>
           (if sagaAborted s
            then \<forall>t \<in> fst ` set (taskState s). IsCompTaskStarted s t \<and> IsCompTaskCompleted s t
            else \<forall>t \<in> fst ` set (taskState s). IsTaskCompleted s t))
       \<and> (\<forall>s'. updateSagaState s msg = Inr s' \<longrightarrow> s' = s\<lparr>sagaCompleted := True\<rparr>)
       \<and> (\<forall>err. updateSagaState s msg = Inl err \<longrightarrow> sublist ''has not completed'' err)"
proof -
  have upd: "updateSagaState s msg =
      (case endSagaLoop s (map fst (taskState s)) of
         Some err \<Rightarrow> Inl err
       | None \<Rightarrow> Inr (s\<lparr>sagaCompleted := True\<rparr>))"
    using update_EndSaga [OF assms(2,3)] unfolding copySagaState_id [OF assms(1)] .
  let ?P = "\<lambda>t. if sagaAborted s then IsCompTaskStarted s t \<and> IsCompTaskCompleted s t
                 else IsTaskCompleted s t"
  show ?thesis
  proof (cases "endSagaLoop s (map fst (taskState s))")
    case None
    then have cond: "\<forall>t \<in> set (map fst (taskState s)). ?P t"
      by (rule endSagaLoop_None [THEN iffD1])
    have res: "updateSagaState s msg = Inr (s\<lparr>sagaCompleted := True\<rparr>)"
      by (simp add: upd None)
    show ?thesis using cond by (auto simp: res)
  next
    case (Some err)
    then have ncond: "\<not> (\<forall>t \<in> set (map fst (taskState s)). ?P t)"
      using endSagaLoop_None [of s "map fst (taskState s)"] by auto
    have res: "updateSagaState s msg = Inl err"
      by (simp add: upd Some)
    show ?thesis using ncond endSagaLoop_Some [OF Some] by (auto simp: res split: if_splits)
  qed
qed

theorem EndSaga_accepted_iff_witness:
  "wellFormed \<lparr>SagaState.sagaId = ''s1'', job = None, taskData = [],
               taskState = [(''t1'', TaskStarted OR TaskCompleted)],
               sagaAborted = False, sagaCompleted = False\<rparr>
   \<and> updateSagaState
         \<lparr>SagaState.sagaId = ''s1'', job = None, taskData = [],
          taskState = [(''t1'', TaskStarted OR TaskCompleted)],
          sagaAborted = False, sagaCompleted = False\<rparr>
         \<lparr>sagaMessage.sagaId = ''s1'', msgType = EndSaga, taskId = [], data = None\<rparr>
       = Inr \<lparr>SagaState.sagaId = ''s1'', job = None, taskData = [],
              taskState = [(''t1'', TaskStarted OR TaskCompleted)],
              sagaAborted = False, sagaCompleted = True\<rparr>
   \<and> (\<exists>err. updateSagaState
                \<lparr>SagaState.sagaId = ''s1'', job = None, taskData = [],
                 taskState = [(''t1'', TaskStarted)],
                 sagaAborted = False, sagaCompleted = False\<rparr>
                \<lparr>sagaMessage.sagaId = ''s1'', msgType = EndSaga, taskId = [], data = None\<rparr>
              = Inl err \<and> sublist ''has not completed'' err)"
proof -
  let ?m = "\<lparr>sagaMessage.sagaId = ''s1'', msgType = EndSaga, taskId = [], data = None\<rparr>"
  let ?a = "\<lparr>SagaState.sagaId = ''s1'', job = None, taskData = [],
             taskState = [(''t1'', TaskStarted OR TaskCompleted)],
             sagaAborted = False, sagaCompleted = False\<rparr>"
  let ?b = "\<lparr>SagaState.sagaId = ''s1'', job = None, taskData = [],
             taskState = [(''t1'', TaskStarted)],
             sagaAborted = False, sagaCompleted = False\<rparr>"
  have wfa: "wellFormed ?a" and wfb: "wellFormed ?b" by (simp_all add: wellFormed_def)
  have ty: "msgType ?m = EndSaga" by simp
  have ida: "sagaMessage.sagaId ?m = SagaState.sagaId ?a"
    and idb: "sagaMessage.sagaId ?m = SagaState.sagaId ?b" by simp_all
  note A = EndSaga_accepted_iff [OF wfa ty ida]
  note B = EndSaga_accepted_iff [OF wfb ty idb]
  have "\<forall>t \<in> fst ` set (taskState ?a). IsTaskCompleted ?a t"
    by (simp add: IsX_defs flagsOf_def flag_values)
  with A have "\<exists>s'. updateSagaState ?a ?m = Inr s'" by simp
  with A have acc: "updateSagaState ?a ?m = Inr (?a\<lparr>sagaCompleted := True\<rparr>)" by blast
  have "\<not> (\<forall>t \<in> fst ` set (taskState ?b). IsTaskCompleted ?b t)"
    by (simp add: IsX_defs flagsOf_def flag_values)
  with B have "\<not> (\<exists>s'. updateSagaState ?b ?m = Inr s')" by simp
  then obtain err where "updateSagaState ?b ?m = Inl err"
    by (cases "updateSagaState ?b ?m") auto
  with B have rej: "\<exists>err. updateSagaState ?b ?m = Inl err \<and> sublist ''has not completed'' err"
    by blast
  from wfa acc rej show ?thesis by simp
qed

text \<open>
  Claim C2. For every state that is neither completed nor aborted, a StartTask message
  with the saga id of the state, a task id that is not empty and a task that is not
  completed is accepted; the new state has TaskStarted set for the task, and the data of
  the message, when not nil, is the start data of the task. Nothing is asked of the
  TaskStarted flag of the old state: a task already started is started again. The
  witness is such a restart.
\<close>

theorem StartTask_accepted:
  assumes "wellFormed s" and "\<not> sagaCompleted s" and "\<not> sagaAborted s"
    and "msgType msg = StartTask" and "sagaMessage.sagaId msg = SagaState.sagaId s"
    and "taskId msg \<noteq> []" and "\<not> IsTaskCompleted s (taskId msg)"
  shows "\<exists>s'. updateSagaState s msg = Inr s' \<and> IsTaskStarted s' (taskId msg)
              \<and> (data msg \<noteq> None \<longrightarrow> GetStartTaskData s' (taskId msg) = data msg)"
  using update_StartTask [OF assms(4,5,6)] assms(2,3,7)
  unfolding copySagaState_id [OF assms(1)]
  by (simp add: Let_def IsX_update flag_tests getStart_taskState_update getStart_addTaskData)

theorem StartTask_accepted_witness:
  "wellFormed \<lparr>SagaState.sagaId = ''s1'', job = None, taskData = [],
               taskState = [(''t1'', TaskStarted)],
               sagaAborted = False, sagaCompleted = False\<rparr>
   \<and> IsTaskStarted \<lparr>SagaState.sagaId = ''s1'', job = None, taskData = [],
               taskState = [(''t1'', TaskStarted)],
               sagaAborted = False, sagaCompleted = False\<rparr> ''t1''
   \<and> \<not> IsTaskCompleted \<lparr>SagaState.sagaId = ''s1'', job = None, taskData = [],
               taskState = [(''t1'', TaskStarted)],
               sagaAborted = False, sagaCompleted = False\<rparr> ''t1''
   \<and> (\<exists>s'. updateSagaState
               \<lparr>SagaState.sagaId = ''s1'', job = None, taskData = [],
                taskState = [(''t1'', TaskStarted)],
                sagaAborted = False, sagaCompleted = False\<rparr>
               \<lparr>sagaMessage.sagaId = ''s1'', msgType = StartTask, taskId = ''t1'',
                data = Some [1, 2]\<rparr> = Inr s'
             \<and> IsTaskStarted s' ''t1'' \<and> GetStartTaskData s' ''t1'' = Some [1, 2])"
proof -
  let ?s = "\<lparr>SagaState.sagaId = ''s1'', job = None, taskData = [],
             taskState = [(''t1'', TaskStarted)],
             sagaAborted = False, sagaCompleted = False\<rparr>"
  let ?m = "\<lparr>sagaMessage.sagaId = ''s1'', msgType = StartTask, taskId = ''t1'',
             data = Some [1, 2]\<rparr>"
  have wf: "wellFormed ?s" by (simp add: wellFormed_def)
  have st: "IsTaskStarted ?s ''t1''" and nc: "\<not> IsTaskCompleted ?s ''t1''"
    by (simp_all add: IsX_defs flagsOf_def flag_values)
  have nc': "\<not> IsTaskCompleted ?s (taskId ?m)" using nc by simp
  have "\<exists>s'. updateSagaState ?s ?m = Inr s' \<and> IsTaskStarted s' (taskId ?m)
          \<and> (data ?m \<noteq> None \<longrightarrow> GetStartTaskData s' (taskId ?m) = data ?m)"
    by (rule StartTask_accepted [OF wf _ _ _ _ _ nc']) simp_all
  then have "\<exists>s'. updateSagaState ?s ?m = Inr s' \<and> IsTaskStarted s' ''t1''
          \<and> GetStartTaskData s' ''t1'' = Some [1, 2]"
    by simp
  with wf st nc show ?thesis by blast
qed

text \<open>
  Counterexample to claim C3 as stated: a StartSaga message for another saga id, on
  the state that \<open>makeSagaState\<close> returns, is rejected with the mismatch error.
\<close>

theorem StartSaga_rejected_counterexample:
  "makeSagaState ''s1'' None
     = Inr \<lparr>SagaState.sagaId = ''s1'', job = None, taskData = [], taskState = [],
            sagaAborted = False, sagaCompleted = False\<rparr>
   \<and> SagaState.sagaId \<lparr>SagaState.sagaId = ''s1'', job = None, taskData = [], taskState = [],
                       sagaAborted = False, sagaCompleted = False\<rparr> \<noteq> []
   \<and> updateSagaState
         \<lparr>SagaState.sagaId = ''s1'', job = None, taskData = [], taskState = [],
          sagaAborted = False, sagaCompleted = False\<rparr>
         \<lparr>sagaMessage.sagaId = ''s2'', msgType = StartSaga, taskId = [], data = None\<rparr>
       = Inl ''InvalidSagaMessage: sagaId s1 & SagaMessage sagaId s2 do not match''
   \<and> updateSagaState
         \<lparr>SagaState.sagaId = ''s1'', job = None, taskData = [], taskState = [],
          sagaAborted = False, sagaCompleted = False\<rparr>
         \<lparr>sagaMessage.sagaId = ''s2'', msgType = StartSaga, taskId = [], data = None\<rparr>
       \<noteq> Inl ''InvalidSagaState: Cannot apply a StartSaga Message to an already existing Saga''"
  by (simp add: updateSagaState_def copySagaState_def Let_def
        makeSagaState_def validateSagaId_def initializeSagaState_def)

text \<open>
  Claim C3, as the code has it. The claim says that the comparison of saga ids is
  skipped for a StartSaga message, so that a StartSaga message on an initialised state
  always gets the error "Cannot apply a StartSaga Message to an already existing Saga".
  The code compares the saga ids first, for every message type: a StartSaga message for
  another saga id is rejected with the mismatch error, as the counterexample shows.
  What holds: a message with another saga id is rejected with the mismatch error,
  whatever its type; a StartSaga message with the saga id of the state is rejected with
  "Cannot apply a StartSaga Message to an already existing Saga"; so every StartSaga
  message is rejected, in every state.
\<close>

theorem StartSaga_always_rejected:
  "(sagaMessage.sagaId msg \<noteq> SagaState.sagaId s \<longrightarrow>
      updateSagaState s msg =
        Inl (''InvalidSagaMessage: sagaId '' @ SagaState.sagaId s
             @ '' & SagaMessage sagaId '' @ sagaMessage.sagaId msg @ '' do not match''))
   \<and> (msgType msg = StartSaga \<and> sagaMessage.sagaId msg = SagaState.sagaId s \<longrightarrow>
      updateSagaState s msg =
        Inl ''InvalidSagaState: Cannot apply a StartSaga Message to an already existing Saga'')
   \<and> (msgType msg = StartSaga \<longrightarrow> (\<exists>err. updateSagaState s msg = Inl err))"
  using mismatch_rejected [of msg s] update_StartSaga [of msg s] by simp

theorem StartSaga_always_rejected_witness:
  "updateSagaState
     \<lparr>SagaState.sagaId = ''s1'', job = None, taskData = [], taskState = [],
      sagaAborted = False, sagaCompleted = False\<rparr>
     \<lparr>sagaMessage.sagaId = ''s1'', msgType = StartSaga, taskId = [], data = None\<rparr>
   = Inl ''InvalidSagaState: Cannot apply a StartSaga Message to an already existing Saga''
   \<and> updateSagaState
     \<lparr>SagaState.sagaId = ''s1'', job = None, taskData = [], taskState = [],
      sagaAborted = False, sagaCompleted = False\<rparr>
     \<lparr>sagaMessage.sagaId = ''s2'', msgType = EndSaga, taskId = [], data = None\<rparr>
   = Inl ''InvalidSagaMessage: sagaId s1 & SagaMessage sagaId s2 do not match''"
  using StartSaga_always_rejected
      [of "\<lparr>sagaMessage.sagaId = ''s1'', msgType = StartSaga, taskId = [], data = None\<rparr>"
          "\<lparr>SagaState.sagaId = ''s1'', job = None, taskData = [], taskState = [],
            sagaAborted = False, sagaCompleted = False\<rparr>"]
    StartSaga_always_rejected
      [of "\<lparr>sagaMessage.sagaId = ''s2'', msgType = EndSaga, taskId = [], data = None\<rparr>"
          "\<lparr>SagaState.sagaId = ''s1'', job = None, taskData = [], taskState = [],
            sagaAborted = False, sagaCompleted = False\<rparr>"]
  by simp

text \<open>
  Claim C4. Monotonicity: for every reachable state and every accepted message, each
  of the four task flags that is set for a task id in the old state is set for it in the
  new state, and neither \<open>sagaAborted\<close> nor \<open>sagaCompleted\<close> goes from true to false.
  (StartTask overwrites the flags of its task with TaskStarted alone; in a reachable
  state that is neither aborted nor has the task completed, no other flag was set.)
\<close>

theorem update_monotone:
  assumes "reachable s" and "updateSagaState s msg = Inr s'"
  shows "(IsTaskStarted s t \<longrightarrow> IsTaskStarted s' t)
       \<and> (IsTaskCompleted s t \<longrightarrow> IsTaskCompleted s' t)
       \<and> (IsCompTaskStarted s t \<longrightarrow> IsCompTaskStarted s' t)
       \<and> (IsCompTaskCompleted s t \<longrightarrow> IsCompTaskCompleted s' t)
       \<and> (sagaAborted s \<longrightarrow> sagaAborted s')
       \<and> (sagaCompleted s \<longrightarrow> sagaCompleted s')"
proof -
  have "wellFormed s" and inv: "taskFlagInvariant s"
    using reachable_invariant [OF assms(1)] by simp_all
  then have "stepEffect s msg s'"
    using accepted_effect [OF assms(2)] by simp
  then show ?thesis by (rule monotone_step [OF _ inv])
qed

theorem update_monotone_witness:
  "reachable \<lparr>SagaState.sagaId = ''s1'', job = None, taskData = [],
          taskState = [(''t1'', 7)], sagaAborted = True, sagaCompleted = False\<rparr>
   \<and> updateSagaState
        \<lparr>SagaState.sagaId = ''s1'', job = None, taskData = [],
          taskState = [(''t1'', 7)], sagaAborted = True, sagaCompleted = False\<rparr>
        \<lparr>sagaMessage.sagaId = ''s1'', msgType = EndCompTask, taskId = ''t1'', data = None\<rparr>
      = Inr \<lparr>SagaState.sagaId = ''s1'', job = None, taskData = [],
          taskState = [(''t1'', 15)], sagaAborted = True, sagaCompleted = False\<rparr>
   \<and> IsTaskStarted \<lparr>SagaState.sagaId = ''s1'', job = None, taskData = [],
          taskState = [(''t1'', 15)], sagaAborted = True, sagaCompleted = False\<rparr> ''t1''
   \<and> IsTaskCompleted \<lparr>SagaState.sagaId = ''s1'', job = None, taskData = [],
          taskState = [(''t1'', 15)], sagaAborted = True, sagaCompleted = False\<rparr> ''t1''
   \<and> IsCompTaskStarted \<lparr>SagaState.sagaId = ''s1'', job = None, taskData = [],
          taskState = [(''t1'', 15)], sagaAborted = True, sagaCompleted = False\<rparr> ''t1''"
proof -
  let ?s = "\<lparr>SagaState.sagaId = ''s1'', job = None, taskData = [],
          taskState = [(''t1'', 7)], sagaAborted = True, sagaCompleted = False\<rparr>"
  let ?s' = "\<lparr>SagaState.sagaId = ''s1'', job = None, taskData = [],
          taskState = [(''t1'', 15)], sagaAborted = True, sagaCompleted = False\<rparr>"
  let ?m = "\<lparr>sagaMessage.sagaId = ''s1'', msgType = EndCompTask, taskId = ''t1'', data = None\<rparr>"
  have upd: "updateSagaState ?s ?m = Inr ?s'" by (simp add: run_defs)
  note M = update_monotone [OF example_reachable upd, of "''t1''"]
  have "IsTaskStarted ?s ''t1''" "IsTaskCompleted ?s ''t1''" "IsCompTaskStarted ?s ''t1''"
    by (simp_all add: IsX_defs flagsOf_def flag_values)
  with M have "IsTaskStarted ?s' ''t1'' \<and> IsTaskCompleted ?s' ''t1'' \<and> IsCompTaskStarted ?s' ''t1''"
    by blast
  with example_reachable upd show ?thesis by blast
qed

text \<open>
  Claim C5. Every reachable state satisfies the three invariants of the task flags, for
  every task id: TaskCompleted implies TaskStarted; CompTaskStarted implies that the
  saga is aborted and TaskStarted; CompTaskCompleted implies CompTaskStarted.
\<close>

theorem reachable_task_flag_invariants:
  assumes "reachable s"
  shows "(IsTaskCompleted s t \<longrightarrow> IsTaskStarted s t)
       \<and> (IsCompTaskStarted s t \<longrightarrow> sagaAborted s \<and> IsTaskStarted s t)
       \<and> (IsCompTaskCompleted s t \<longrightarrow> IsCompTaskStarted s t)"
  using reachable_invariant [OF assms] by (simp add: taskFlagInvariant_def)

theorem reachable_task_flag_invariants_witness:
  "reachable \<lparr>SagaState.sagaId = ''s1'', job = None, taskData = [],
          taskState = [(''t1'', 7)], sagaAborted = True, sagaCompleted = False\<rparr>
   \<and> IsTaskCompleted \<lparr>SagaState.sagaId = ''s1'', job = None, taskData = [],
          taskState = [(''t1'', 7)], sagaAborted = True, sagaCompleted = False\<rparr> ''t1''
   \<and> IsCompTaskStarted \<lparr>SagaState.sagaId = ''s1'', job = None, taskData = [],
          taskState = [(''t1'', 7)], sagaAborted = True, sagaCompleted = False\<rparr> ''t1''
   \<and> IsTaskStarted \<lparr>SagaState.sagaId = ''s1'', job = None, taskData = [],
          taskState = [(''t1'', 7)], sagaAborted = True, sagaCompleted = False\<rparr> ''t1''
   \<and> \<not> IsCompTaskCompleted \<lparr>SagaState.sagaId = ''s1'', job = None, taskData = [],
          taskState = [(''t1'', 7)], sagaAborted = True, sagaCompleted = False\<rparr> ''t1''"
proof -
  let ?s = "\<lparr>SagaState.sagaId = ''s1'', job = None, taskData = [],
          taskState = [(''t1'', 7)], sagaAborted = True, sagaCompleted = False\<rparr>"
  note I = reachable_task_flag_invariants [OF example_reachable, of "''t1''"]
  have c: "IsTaskCompleted ?s ''t1''" and cs: "IsCompTaskStarted ?s ''t1''"
    and ncc: "\<not> IsCompTaskCompleted ?s ''t1''"
    by (simp_all add: IsX_defs flagsOf_def flag_values)
  from I c have "IsTaskStarted ?s ''t1''" by blast
  with example_reachable c cs ncc show ?thesis by blast
qed

text \<open>
  Claim C6. For every state and every task message (StartTask, EndTask, StartCompTask,
  EndCompTask) with the saga id of the state and the empty task id, \<open>updateSagaState\<close>
  rejects the message, and the error text contains "taskId cannot be the empty string".
  The rejection has no effect that the caller can observe: run on a store in which the
  caller's pointer stands for the state, the function returns the error and a store in
  which every object of the old store is unchanged at its address, so that the
  caller's pointer still stands for the same state.
\<close>

theorem empty_taskId_rejected:
  assumes "msgType msg \<in> {StartTask, EndTask, StartCompTask, EndCompTask}"
    and "sagaMessage.sagaId msg = SagaState.sagaId S"
    and "taskId msg = []"
  shows "updateSagaState S msg
           = Inl ''Invalid Saga Message: taskId cannot be the empty string''
       \<and> sublist ''taskId cannot be the empty string''
             ''Invalid Saga Message: taskId cannot be the empty string''
       \<and> (absState h s = Some S \<and> wellFormed S \<longrightarrow>
            (\<exists>h'. updateSagaState_st h s msg
                     = Some (Inl ''Invalid Saga Message: taskId cannot be the empty string'', h')
                 \<and> extends h h' \<and> absState h' s = Some S))"
proof -
  have "''Invalid Saga Message: taskId cannot be the empty string''
        = ''Invalid Saga Message: '' @ ''taskId cannot be the empty string''"
    by simp
  then have sub: "sublist ''taskId cannot be the empty string''
               ''Invalid Saga Message: taskId cannot be the empty string''"
    by (simp only: sublist_append_leftI)
  note pure = update_empty_taskId [OF assms]
  have "\<exists>h'. updateSagaState_st h s msg
                 = Some (Inl ''Invalid Saga Message: taskId cannot be the empty string'', h')
             \<and> extends h h' \<and> absState h' s = Some S"
    if abs: "absState h s = Some S" and wf: "wellFormed S"
  proof -
    have "updateSagaState_st h s msg
            = Some (Inl ''Invalid Saga Message: taskId cannot be the empty string'', install h S)"
      using updateSagaState_st_refines [OF abs wf, of msg] by (simp add: pure)
    moreover have "extends h (install h S)" by (rule extends_install)
    moreover from this abs have "absState (install h S) s = Some S" by (rule absState_extends)
    ultimately show ?thesis by blast
  qed
  with pure sub show ?thesis by blast
qed

theorem empty_taskId_rejected_witness:
  "absState
     \<lparr>structs = [\<lparr>sagaIdF = ''s1'', jobF = None, taskDataF = Some 0, taskStateF = Some 0,
                  sagaAbortedF = False, sagaCompletedF = False\<rparr>],
      flagMaps = [[(''t1'', TaskStarted)]],
      dataMaps = [[(''t1'', Some 0)]],
      dataCells = [\<lparr>taskStart = Some [1], taskEnd = None, compTaskStart = None,
                    compTaskEnd = None\<rparr>]\<rparr>
     (Some 0)
   = Some \<lparr>SagaState.sagaId = ''s1'', job = None,
           taskData = [(''t1'', \<lparr>taskStart = Some [1], taskEnd = None, compTaskStart = None,
                                compTaskEnd = None\<rparr>)],
           taskState = [(''t1'', TaskStarted)],
           sagaAborted = False, sagaCompleted = False\<rparr>
   \<and> (\<exists>h'. updateSagaState_st
         \<lparr>structs = [\<lparr>sagaIdF = ''s1'', jobF = None, taskDataF = Some 0, taskStateF = Some 0,
                      sagaAbortedF = False, sagaCompletedF = False\<rparr>],
          flagMaps = [[(''t1'', TaskStarted)]],
          dataMaps = [[(''t1'', Some 0)]],
          dataCells = [\<lparr>taskStart = Some [1], taskEnd = None, compTaskStart = None,
                        compTaskEnd = None\<rparr>]\<rparr>
         (Some 0)
         \<lparr>sagaMessage.sagaId = ''s1'', msgType = EndTask, taskId = [], data = Some [7]\<rparr>
        = Some (Inl ''Invalid Saga Message: taskId cannot be the empty string'', h')
      \<and> extends
         \<lparr>structs = [\<lparr>sagaIdF = ''s1'', jobF = None, taskDataF = Some 0, taskStateF = Some 0,
                      sagaAbortedF = False, sagaCompletedF = False\<rparr>],
          flagMaps = [[(''t1'', TaskStarted)]],
          dataMaps = [[(''t1'', Some 0)]],
          dataCells = [\<lparr>taskStart = Some [1], taskEnd = None, compTaskStart = None,
                        compTaskEnd = None\<rparr>]\<rparr> h')
   \<and> updateSagaState
       \<lparr>SagaState.sagaId = ''s1'', job = None,
           taskData = [(''t1'', \<lparr>taskStart = Some [1], taskEnd = None, compTaskStart = None,
                                compTaskEnd = None\<rparr>)],
           taskState = [(''t1'', TaskStarted)],
           sagaAborted = False, sagaCompleted = False\<rparr>
       \<lparr>sagaMessage.sagaId = ''s1'', msgType = EndTask, taskId = [], data = Some [7]\<rparr>
     = Inl ''Invalid Saga Message: taskId cannot be the empty string''"
proof -
  let ?h = "\<lparr>structs = [\<lparr>sagaIdF = ''s1'', jobF = None, taskDataF = Some 0, taskStateF = Some 0,
                      sagaAbortedF = False, sagaCompletedF = False\<rparr>],
          flagMaps = [[(''t1'', TaskStarted)]],
          dataMaps = [[(''t1'', Some 0)]],
          dataCells = [\<lparr>taskStart = Some [1], taskEnd = None, compTaskStart = None,
                        compTaskEnd = None\<rparr>]\<rparr>"
  let ?S = "\<lparr>SagaState.sagaId = ''s1'', job = None,
           taskData = [(''t1'', \<lparr>taskStart = Some [1], taskEnd = None, compTaskStart = None,
                                compTaskEnd = None\<rparr>)],
           taskState = [(''t1'', TaskStarted)],
           sagaAborted = False, sagaCompleted = False\<rparr>"
  let ?m = "\<lparr>sagaMessage.sagaId = ''s1'', msgType = EndTask, taskId = [], data = Some [7]\<rparr>"
  have abs: "absState ?h (Some 0) = Some ?S"
    by (simp add: absState_def deref_def entries_def)
  have wf: "wellFormed ?S" by (simp add: wellFormed_def)
  have "msgType ?m \<in> {StartTask, EndTask, StartCompTask, EndCompTask}"
    and "sagaMessage.sagaId ?m = SagaState.sagaId ?S" and "taskId ?m = []"
    by simp_all
  note T = empty_taskId_rejected [OF this, of ?h "Some 0"]
  from T abs wf show ?thesis by blast
qed

text \<open>
  Claim C7. \<open>LogMessage\<close> returns an error if and only if the log has no entry for the
  saga id of the message, which for a log built by calls from the empty log means that
  no StartSaga call was made for that saga id. On error the log is unchanged. On success
  the message is appended at the end of the messages of its saga, and the messages of
  every other saga are unchanged.
\<close>

theorem LogMessage_fails_iff_not_started:
  "(fst (LogMessage log msg) \<noteq> None \<longleftrightarrow> map_of (sagas log) (sagaMessage.sagaId msg) = None)
   \<and> (fst (LogMessage (runCalls calls) msg) \<noteq> None \<longleftrightarrow>
        \<not> (\<exists>c \<in> set calls. startsSaga (sagaMessage.sagaId msg) c))
   \<and> (fst (LogMessage log msg) \<noteq> None \<longrightarrow> snd (LogMessage log msg) = log)
   \<and> (fst (LogMessage log msg) = None \<longrightarrow>
        (\<exists>msgs. map_of (sagas log) (sagaMessage.sagaId msg) = Some msgs
            \<and> map_of (sagas (snd (LogMessage log msg))) (sagaMessage.sagaId msg)
                = Some (msgs @ [msg]))
        \<and> (\<forall>other. other \<noteq> sagaMessage.sagaId msg \<longrightarrow>
              map_of (sagas (snd (LogMessage log msg))) other = map_of (sagas log) other))"
proof -
  have a: "fst (LogMessage l msg) \<noteq> None \<longleftrightarrow> map_of (sagas l) (sagaMessage.sagaId msg) = None"
    for l
    by (simp add: LogMessage_def Let_def split: option.splits)
  have b: "fst (LogMessage (runCalls calls) msg) \<noteq> None \<longleftrightarrow>
        \<not> (\<exists>c \<in> set calls. startsSaga (sagaMessage.sagaId msg) c)"
    unfolding a by (simp add: stored_messages)
  have c: "fst (LogMessage log msg) \<noteq> None \<longrightarrow> snd (LogMessage log msg) = log"
    by (simp add: LogMessage_def Let_def split: option.splits)
  have d: "fst (LogMessage log msg) = None \<longrightarrow>
        (\<exists>msgs. map_of (sagas log) (sagaMessage.sagaId msg) = Some msgs
            \<and> map_of (sagas (snd (LogMessage log msg))) (sagaMessage.sagaId msg)
                = Some (msgs @ [msg]))
        \<and> (\<forall>other. other \<noteq> sagaMessage.sagaId msg \<longrightarrow>
              map_of (sagas (snd (LogMessage log msg))) other = map_of (sagas log) other)"
    by (simp add: LogMessage_def Let_def update_conv' split: option.splits)
  from a [of log] b c d show ?thesis by blast
qed

theorem LogMessage_fails_iff_not_started_witness:
  "fst (LogMessage (runCalls [CallStartSaga ''s1'' None])
          \<lparr>sagaMessage.sagaId = ''s1'', msgType = StartTask, taskId = ''t1'', data = None\<rparr>)
     = None
   \<and> map_of (sagas (snd (LogMessage (runCalls [CallStartSaga ''s1'' None])
          \<lparr>sagaMessage.sagaId = ''s1'', msgType = StartTask, taskId = ''t1'', data = None\<rparr>)))
        ''s1''
     = Some [MakeStartSagaMessage ''s1'' None,
             \<lparr>sagaMessage.sagaId = ''s1'', msgType = StartTask, taskId = ''t1'', data = None\<rparr>]
   \<and> fst (LogMessage (runCalls [CallStartSaga ''s1'' None])
          \<lparr>sagaMessage.sagaId = ''s2'', msgType = StartTask, taskId = ''t1'', data = None\<rparr>)
     \<noteq> None
   \<and> snd (LogMessage (runCalls [CallStartSaga ''s1'' None])
          \<lparr>sagaMessage.sagaId = ''s2'', msgType = StartTask, taskId = ''t1'', data = None\<rparr>)
     = runCalls [CallStartSaga ''s1'' None]"
proof -
  let ?log = "runCalls [CallStartSaga ''s1'' None]"
  let ?m1 = "\<lparr>sagaMessage.sagaId = ''s1'', msgType = StartTask, taskId = ''t1'', data = None\<rparr>"
  let ?m2 = "\<lparr>sagaMessage.sagaId = ''s2'', msgType = StartTask, taskId = ''t1'', data = None\<rparr>"
  note A = LogMessage_fails_iff_not_started [of ?log ?m1 "[CallStartSaga ''s1'' None]"]
  note B = LogMessage_fails_iff_not_started [of ?log ?m2 "[CallStartSaga ''s1'' None]"]
  have stored: "map_of (sagas ?log) ''s1'' = Some [MakeStartSagaMessage ''s1'' None]"
    by (simp add: runCalls_def inMemLog_def StartSaga_log_def)
  have "\<exists>c \<in> set [CallStartSaga ''s1'' None]. startsSaga (sagaMessage.sagaId ?m1) c"
    by simp
  with A have ok: "fst (LogMessage ?log ?m1) = None" by blast
  with A stored have app: "map_of (sagas (snd (LogMessage ?log ?m1))) ''s1''
      = Some [MakeStartSagaMessage ''s1'' None, ?m1]"
    by auto
  have "\<not> (\<exists>c \<in> set [CallStartSaga ''s1'' None]. startsSaga (sagaMessage.sagaId ?m2) c)"
    by simp
  with B have err: "fst (LogMessage ?log ?m2) \<noteq> None" by blast
  with B have same: "snd (LogMessage ?log ?m2) = ?log" by blast
  from ok app err same show ?thesis by blast
qed

text \<open>
  Counterexample to claim C8 as stated: StartSaga, then a message that \<open>LogMessage\<close>
  accepts for the saga, then StartSaga again for the same saga id. The second StartSaga
  replaces the stored sequence, so \<open>GetMessages\<close> returns the StartSaga message alone
  and the accepted message is not in the result.
\<close>

theorem GetMessages_in_order_counterexample:
  "fst (LogMessage (runCalls [CallStartSaga ''s1'' None])
          \<lparr>sagaMessage.sagaId = ''s1'', msgType = StartTask, taskId = ''t1'', data = None\<rparr>)
     = None
   \<and> GetMessages
         (runCalls
            [CallStartSaga ''s1'' None,
             CallLogMessage
               \<lparr>sagaMessage.sagaId = ''s1'', msgType = StartTask, taskId = ''t1'', data = None\<rparr>,
             CallStartSaga ''s1'' None])
         ''s1''
       = ([MakeStartSagaMessage ''s1'' None], None)
   \<and> \<lparr>sagaMessage.sagaId = ''s1'', msgType = StartTask, taskId = ''t1'', data = None\<rparr>
       \<notin> set (fst (GetMessages
                       (runCalls
                          [CallStartSaga ''s1'' None,
                           CallLogMessage
                             \<lparr>sagaMessage.sagaId = ''s1'', msgType = StartTask, taskId = ''t1'',
                              data = None\<rparr>,
                           CallStartSaga ''s1'' None])
                       ''s1''))"
  by (simp add: runCalls_def inMemLog_def StartSaga_log_def LogMessage_def GetMessages_def
        MakeStartSagaMessage_def Let_def)

text \<open>
  Claim C8, as the code has it. The claim says that \<open>GetMessages\<close> returns the StartSaga
  message and then each message that \<open>LogMessage\<close> accepted for the saga. A StartSaga
  call for a saga id that is already in the log replaces the stored sequence, so the
  messages accepted before it are gone, as the counterexample shows. What holds:
  \<open>GetMessages\<close> never returns an error; it returns the stored messages of the saga, and
  the empty sequence for a saga id without an entry; for a log built by calls from the
  empty log, the stored messages are the StartSaga message of the latest StartSaga call
  for the saga followed by the messages that \<open>LogMessage\<close> accepted for the saga after
  that call, in the order of the calls; for a saga id that was never started the result
  is empty.
\<close>

theorem GetMessages_in_order:
  "snd (GetMessages log sid) = None
   \<and> fst (GetMessages log sid) = (case map_of (sagas log) sid of Some msgs \<Rightarrow> msgs | None \<Rightarrow> [])
   \<and> GetMessages (runCalls calls) sid = (acceptedMessages sid calls, None)
   \<and> (\<not> (\<exists>c \<in> set calls. startsSaga sid c) \<longrightarrow> GetMessages (runCalls calls) sid = ([], None))"
proof -
  have none: "acceptedMessages sid calls = []" if "\<not> (\<exists>c \<in> set calls. startsSaga sid c)"
  proof -
    from that have d: "dropWhile (\<lambda>c. \<not> startsSaga sid c) (rev calls) = []" by simp
    show ?thesis by (simp add: acceptedMessages_def d)
  qed
  have run: "GetMessages (runCalls calls) sid = (acceptedMessages sid calls, None)"
    using none by (auto simp: GetMessages_def stored_messages)
  have "snd (GetMessages log sid) = None"
    and "fst (GetMessages log sid) = (case map_of (sagas log) sid of Some msgs \<Rightarrow> msgs | None \<Rightarrow> [])"
    by (simp_all add: GetMessages_def split: option.splits)
  with run none show ?thesis by simp
qed

theorem GetMessages_in_order_witness:
  "GetMessages
     (runCalls
        [CallStartSaga ''s1'' None,
         CallLogMessage \<lparr>sagaMessage.sagaId = ''s1'', msgType = StartTask, taskId = ''t1'', data = None\<rparr>,
         CallLogMessage \<lparr>sagaMessage.sagaId = ''s2'', msgType = StartTask, taskId = ''t2'', data = None\<rparr>,
         CallLogMessage \<lparr>sagaMessage.sagaId = ''s1'', msgType = EndTask, taskId = ''t1'', data = None\<rparr>])
     ''s1''
   = ([MakeStartSagaMessage ''s1'' None,
       \<lparr>sagaMessage.sagaId = ''s1'', msgType = StartTask, taskId = ''t1'', data = None\<rparr>,
       \<lparr>sagaMessage.sagaId = ''s1'', msgType = EndTask, taskId = ''t1'', data = None\<rparr>], None)
   \<and> GetMessages
     (runCalls
        [CallStartSaga ''s1'' None,
         CallLogMessage \<lparr>sagaMessage.sagaId = ''s1'', msgType = StartTask, taskId = ''t1'', data = None\<rparr>,
         CallLogMessage \<lparr>sagaMessage.sagaId = ''s2'', msgType = StartTask, taskId = ''t2'', data = None\<rparr>,
         CallLogMessage \<lparr>sagaMessage.sagaId = ''s1'', msgType = EndTask, taskId = ''t1'', data = None\<rparr>])
     ''s2''
   = ([], None)
   \<and> GetMessages
     (runCalls
        [CallStartSaga ''s1'' None,
         CallLogMessage \<lparr>sagaMessage.sagaId = ''s1'', msgType = StartTask, taskId = ''t1'', data = None\<rparr>,
         CallStartSaga ''s1'' (Some [9]),
         CallLogMessage \<lparr>sagaMessage.sagaId = ''s1'', msgType = AbortSaga, taskId = [], data = None\<rparr>])
     ''s1''
   = ([MakeStartSagaMessage ''s1'' (Some [9]),
       \<lparr>sagaMessage.sagaId = ''s1'', msgType = AbortSaga, taskId = [], data = None\<rparr>], None)"
proof -
  let ?calls = "[CallStartSaga ''s1'' None,
         CallLogMessage \<lparr>sagaMessage.sagaId = ''s1'', msgType = StartTask, taskId = ''t1'', data = None\<rparr>,
         CallLogMessage \<lparr>sagaMessage.sagaId = ''s2'', msgType = StartTask, taskId = ''t2'', data = None\<rparr>,
         CallLogMessage \<lparr>sagaMessage.sagaId = ''s1'', msgType = EndTask, taskId = ''t1'', data = None\<rparr>]"
  let ?again = "[CallStartSaga ''s1'' None,
         CallLogMessage \<lparr>sagaMessage.sagaId = ''s1'', msgType = StartTask, taskId = ''t1'', data = None\<rparr>,
         CallStartSaga ''s1'' (Some [9]),
         CallLogMessage \<lparr>sagaMessage.sagaId = ''s1'', msgType = AbortSaga, taskId = [], data = None\<rparr>]"
  note A = GetMessages_in_order [of "runCalls ?calls" "''s1''" ?calls]
  note B = GetMessages_in_order [of "runCalls ?calls" "''s2''" ?calls]
  note C = GetMessages_in_order [of "runCalls ?again" "''s1''" ?again]
  have "acceptedMessages ''s1'' ?calls
        = [MakeStartSagaMessage ''s1'' None,
           \<lparr>sagaMessage.sagaId = ''s1'', msgType = StartTask, taskId = ''t1'', data = None\<rparr>,
           \<lparr>sagaMessage.sagaId = ''s1'', msgType = EndTask, taskId = ''t1'', data = None\<rparr>]"
    by (simp add: acceptedMessages_def)
  with A have a: "GetMessages (runCalls ?calls) ''s1''
      = ([MakeStartSagaMessage ''s1'' None,
       \<lparr>sagaMessage.sagaId = ''s1'', msgType = StartTask, taskId = ''t1'', data = None\<rparr>,
       \<lparr>sagaMessage.sagaId = ''s1'', msgType = EndTask, taskId = ''t1'', data = None\<rparr>], None)"
    by simp
  have "\<not> (\<exists>c \<in> set ?calls. startsSaga ''s2'' c)" by simp
  with B have b: "GetMessages (runCalls ?calls) ''s2'' = ([], None)" by blast
  have "acceptedMessages ''s1'' ?again
        = [MakeStartSagaMessage ''s1'' (Some [9]),
           \<lparr>sagaMessage.sagaId = ''s1'', msgType = AbortSaga, taskId = [], data = None\<rparr>]"
    by (simp add: acceptedMessages_def)
  with C have c: "GetMessages (runCalls ?again) ''s1''
      = ([MakeStartSagaMessage ''s1'' (Some [9]),
       \<lparr>sagaMessage.sagaId = ''s1'', msgType = AbortSaga, taskId = [], data = None\<rparr>], None)"
    by simp
  from a b c show ?thesis by blast
qed

text \<open>
  Claim C9. \<open>StartSaga\<close> of the log always succeeds and leaves exactly one message for
  the saga id, the StartSaga message with that saga id and job, whatever the log held
  for the saga id before; afterwards the saga id is among the result of
  \<open>GetActiveSagas\<close>, which returns no error. The witness overwrites a log of two
  messages.
\<close>

theorem StartSaga_log_overwrites:
  "fst (StartSaga_log log sid j) = None
   \<and> map_of (sagas (snd (StartSaga_log log sid j))) sid = Some [MakeStartSagaMessage sid j]
   \<and> GetMessages (snd (StartSaga_log log sid j)) sid = ([MakeStartSagaMessage sid j], None)
   \<and> sagaMessage.sagaId (MakeStartSagaMessage sid j) = sid
   \<and> msgType (MakeStartSagaMessage sid j) = StartSaga
   \<and> data (MakeStartSagaMessage sid j) = j
   \<and> sid \<in> set (fst (GetActiveSagas (snd (StartSaga_log log sid j))))
   \<and> snd (GetActiveSagas (snd (StartSaga_log log sid j))) = None"
  by (simp add: StartSaga_log_def Let_def update_conv' GetMessages_def MakeStartSagaMessage_def
        GetActiveSagas_keys dom_update)
     (simp add: GetActiveSagas_def)

theorem StartSaga_log_overwrites_witness:
  "map_of (sagas (runCalls [CallStartSaga ''s1'' None,
       CallLogMessage \<lparr>sagaMessage.sagaId = ''s1'', msgType = StartTask, taskId = ''t1'', data = None\<rparr>]))
     ''s1''
   = Some [MakeStartSagaMessage ''s1'' None,
           \<lparr>sagaMessage.sagaId = ''s1'', msgType = StartTask, taskId = ''t1'', data = None\<rparr>]
   \<and> GetMessages (snd (StartSaga_log (runCalls [CallStartSaga ''s1'' None,
       CallLogMessage \<lparr>sagaMessage.sagaId = ''s1'', msgType = StartTask, taskId = ''t1'', data = None\<rparr>])
         ''s1'' (Some [9]))) ''s1''
   = ([MakeStartSagaMessage ''s1'' (Some [9])], None)
   \<and> fst (GetActiveSagas (snd (StartSaga_log (runCalls [CallStartSaga ''s1'' None,
       CallLogMessage \<lparr>sagaMessage.sagaId = ''s1'', msgType = StartTask, taskId = ''t1'', data = None\<rparr>])
         ''s1'' (Some [9])))) = [''s1'']"
proof -
  let ?log = "runCalls [CallStartSaga ''s1'' None,
       CallLogMessage \<lparr>sagaMessage.sagaId = ''s1'', msgType = StartTask, taskId = ''t1'', data = None\<rparr>]"
  note A = StartSaga_log_overwrites [of ?log "''s1''" "Some [9]"]
  have before: "map_of (sagas ?log) ''s1''
      = Some [MakeStartSagaMessage ''s1'' None,
           \<lparr>sagaMessage.sagaId = ''s1'', msgType = StartTask, taskId = ''t1'', data = None\<rparr>]"
    by (simp add: runCalls_def inMemLog_def StartSaga_log_def LogMessage_def MakeStartSagaMessage_def
          Let_def)
  have keys: "fst (GetActiveSagas (snd (StartSaga_log ?log ''s1'' (Some [9])))) = [''s1'']"
    by (simp add: GetActiveSagas_keys runCalls_def inMemLog_def StartSaga_log_def LogMessage_def
          MakeStartSagaMessage_def Let_def)
  from A before keys show ?thesis by blast
qed

text \<open>
  Claim C10. \<open>updateSagaState\<close> never accepts a StartSaga message and never changes
  the saga id or the job of a state. \<open>makeSagaState\<close> fails exactly for the empty saga
  id and otherwise returns the state with that saga id and job, empty task maps and both
  booleans false. No sequence of accepted updates takes the state of
  \<open>initializeSagaState\<close> to a state with a saga id. A message of any type whose saga id
  differs from that of the state is rejected with the mismatch error, whatever else the
  state and the message hold.
\<close>

theorem sagaId_fixed:
  "(msgType msg = StartSaga \<longrightarrow> (\<exists>err. updateSagaState s msg = Inl err))
   \<and> (updateSagaState s msg = Inr s' \<longrightarrow>
        SagaState.sagaId s' = SagaState.sagaId s \<and> job s' = job s)
   \<and> makeSagaState sid j =
        (if sid = [] then Inl ''Invalid Saga Message: sagaId cannot be the empty string''
         else Inr \<lparr>SagaState.sagaId = sid, job = j, taskData = [], taskState = [],
                   sagaAborted = False, sagaCompleted = False\<rparr>)
   \<and> (applyMessages initializeSagaState msgs = Inr s'' \<longrightarrow> SagaState.sagaId s'' = [])
   \<and> (sagaMessage.sagaId msg \<noteq> SagaState.sagaId s \<longrightarrow>
        updateSagaState s msg =
          Inl (''InvalidSagaMessage: sagaId '' @ SagaState.sagaId s
               @ '' & SagaMessage sagaId '' @ sagaMessage.sagaId msg @ '' do not match''))"
proof -
  have a: "msgType msg = StartSaga \<longrightarrow> (\<exists>err. updateSagaState s msg = Inl err)"
    using update_StartSaga [of msg s] by simp
  have b: "updateSagaState s msg = Inr s' \<longrightarrow>
        SagaState.sagaId s' = SagaState.sagaId s \<and> job s' = job s"
    using accepted_keeps_id by blast
  have c: "makeSagaState sid j =
        (if sid = [] then Inl ''Invalid Saga Message: sagaId cannot be the empty string''
         else Inr \<lparr>SagaState.sagaId = sid, job = j, taskData = [], taskState = [],
                   sagaAborted = False, sagaCompleted = False\<rparr>)"
    by (simp add: makeSagaState_def validateSagaId_def initializeSagaState_def)
  have d: "applyMessages initializeSagaState msgs = Inr s'' \<longrightarrow> SagaState.sagaId s'' = []"
    using applyMessages_keeps_id [of initializeSagaState msgs s'']
    by (simp add: initializeSagaState_def)
  have e: "sagaMessage.sagaId msg \<noteq> SagaState.sagaId s \<longrightarrow>
        updateSagaState s msg =
          Inl (''InvalidSagaMessage: sagaId '' @ SagaState.sagaId s
               @ '' & SagaMessage sagaId '' @ sagaMessage.sagaId msg @ '' do not match'')"
    using mismatch_rejected by blast
  from a b c d e show ?thesis by blast
qed

theorem sagaId_fixed_witness:
  "makeSagaState ''s1'' (Some [1])
     = Inr \<lparr>SagaState.sagaId = ''s1'', job = Some [1], taskData = [], taskState = [],
            sagaAborted = False, sagaCompleted = False\<rparr>
   \<and> makeSagaState [] (Some [1])
     = Inl ''Invalid Saga Message: sagaId cannot be the empty string''
   \<and> (\<exists>err. updateSagaState
         \<lparr>SagaState.sagaId = ''s1'', job = Some [1], taskData = [], taskState = [],
          sagaAborted = False, sagaCompleted = False\<rparr>
         \<lparr>sagaMessage.sagaId = ''s1'', msgType = StartSaga, taskId = [], data = Some [2]\<rparr> = Inl err)
   \<and> updateSagaState
         \<lparr>SagaState.sagaId = ''s1'', job = Some [1], taskData = [], taskState = [],
          sagaAborted = False, sagaCompleted = False\<rparr>
         \<lparr>sagaMessage.sagaId = ''s2'', msgType = AbortSaga, taskId = [], data = None\<rparr>
     = Inl ''InvalidSagaMessage: sagaId s1 & SagaMessage sagaId s2 do not match''
   \<and> applyMessages initializeSagaState
         [\<lparr>sagaMessage.sagaId = [], msgType = AbortSaga, taskId = [], data = None\<rparr>]
     = Inr \<lparr>SagaState.sagaId = [], job = None, taskData = [], taskState = [],
            sagaAborted = True, sagaCompleted = False\<rparr>"
proof -
  let ?s = "\<lparr>SagaState.sagaId = ''s1'', job = Some [1], taskData = [], taskState = [],
          sagaAborted = False, sagaCompleted = False\<rparr>"
  have a: "makeSagaState ''s1'' (Some [1]) = Inr ?s"
    using sagaId_fixed [of undefined undefined undefined "''s1''" "Some [1]" undefined undefined]
    by simp
  have b: "makeSagaState [] (Some [1])
     = Inl ''Invalid Saga Message: sagaId cannot be the empty string''"
    using sagaId_fixed [of undefined undefined undefined "[]" "Some [1]" undefined undefined]
    by simp
  have c: "\<exists>err. updateSagaState ?s 
         \<lparr>sagaMessage.sagaId = ''s1'', msgType = StartSaga, taskId = [], data = Some [2]\<rparr> = Inl err"
    using sagaId_fixed [of "\<lparr>sagaMessage.sagaId = ''s1'', msgType = StartSaga, taskId = [], data = Some [2]\<rparr>" ?s]
    by simp
  have d: "updateSagaState ?s
         \<lparr>sagaMessage.sagaId = ''s2'', msgType = AbortSaga, taskId = [], data = None\<rparr>
     = Inl ''InvalidSagaMessage: sagaId s1 & SagaMessage sagaId s2 do not match''"
    using sagaId_fixed
      [of "\<lparr>sagaMessage.sagaId = ''s2'', msgType = AbortSaga, taskId = [], data = None\<rparr>" ?s]
    by simp
  have e: "applyMessages initializeSagaState
         [\<lparr>sagaMessage.sagaId = [], msgType = AbortSaga, taskId = [], data = None\<rparr>]
     = Inr \<lparr>SagaState.sagaId = [], job = None, taskData = [], taskState = [],
            sagaAborted = True, sagaCompleted = False\<rparr>"
    by (simp add: run_defs initializeSagaState_def)
  from a b c d e show ?thesis by blast
qed

end
